theory Spec2Isabelle
  imports Complex_Main
begin

section \<open>Ardubot R4 BLE controller: embedding of \<^verbatim>\<open>src/main.py\<close>\<close>

text \<open>
  Conventions of the embedding.
  \<^item> A Python \<^verbatim>\<open>str\<close> and a Python \<^verbatim>\<open>bytes\<close> are both a HOL \<open>string\<close>: the sequence
    of bytes of the UTF-8 encoding. \<^verbatim>\<open>encode("utf-8")\<close> is then the identity.
  \<^item> An exception is a value of type \<open>exn\<close>; a coroutine returns
    \<open>(exn + result) \<times> state \<times> calls\<close>: what it returns or raises, the controller
    afterwards, and the calls it made on the radio stack, in order.
  \<^item> What the platform answers is not decided by the program: an \<open>adapter\<close> holds the
    answers given while one coroutine runs, by the radio stack, by stderr and the log
    file, and by the interpreter's Unicode tables.
  \<^item> The \<^verbatim>\<open>DEBUG\<close> prints of \<^verbatim>\<open>scan_and_connect\<close> are inside its \<^verbatim>\<open>try\<close> block: what
    a print raises is handled like what the radio stack raises. A print that returns
    leaves no trace in the model.
  \<^item> The values the radio stack returns have the types the source reads them at: a
    device has \<^verbatim>\<open>name\<close> and \<^verbatim>\<open>address\<close>, a characteristic a \<^verbatim>\<open>str\<close> \<^verbatim>\<open>uuid\<close>, and
    services and characteristics can be iterated.
  \<^item> The \<^verbatim>\<open>asyncio.Lock\<close> is not modelled: each coroutine is run to its end, alone.
\<close>

subsection \<open>Strings\<close>

definition lower_char :: "char \<Rightarrow> char" where
  "lower_char c =
     (case map_of (zip ''ABCDEFGHIJKLMNOPQRSTUVWXYZ'' ''abcdefghijklmnopqrstuvwxyz'') c of
        Some l \<Rightarrow> l
      | None \<Rightarrow> c)"

definition ascii_lower :: "string \<Rightarrow> string" where
  "ascii_lower s = map lower_char s"

text \<open>Text of code points below 128 only: no byte has its top bit set.\<close>

definition is_ascii :: "string \<Rightarrow> bool" where
  "is_ascii s = list_all (\<lambda>c. \<not> digit7 c) s"

text \<open>Truth value of an \<^verbatim>\<open>Optional[str]\<close>: \<^verbatim>\<open>None\<close> and \<^verbatim>\<open>''\<close> are false.\<close>

fun truthy_str :: "string option \<Rightarrow> bool" where
  "truthy_str None = False"
| "truthy_str (Some s) = (s \<noteq> [])"

subsection \<open>Constants of the module\<close>

definition DEVICE_NAME :: string where
  "DEVICE_NAME = ''ardubotr4''"

definition ROBOT_SERVICE_UUID :: string where
  "ROBOT_SERVICE_UUID = ''19B10000-E8F2-537E-4F6C-D104768A1214''"

definition COMMAND_CHAR_UUID :: string where
  "COMMAND_CHAR_UUID = ''19B10001-E8F2-537E-4F6C-D104768A1214''"

definition REQUIRE_RESPONSE_ON_WRITE :: bool where
  "REQUIRE_RESPONSE_ON_WRITE = True"

definition COMMANDS_items :: "(string \<times> string) list" where
  "COMMANDS_items =
     [(''forward'', ''forward''), (''back'', ''back''), (''left'', ''left''),
      (''right'', ''right''), (''switch'', ''switch'')]"

definition COMMANDS :: "string \<rightharpoonup> string" where
  "COMMANDS = map_of COMMANDS_items"

subsection \<open>What the radio stack exposes\<close>

text \<open>
  A scanned device: \<^verbatim>\<open>d.name\<close> may be \<^verbatim>\<open>None\<close>. A characteristic: \<^verbatim>\<open>uuid\<close> and
  \<^verbatim>\<open>properties\<close>; the source reads \<^verbatim>\<open>properties\<close> as \<^verbatim>\<open>getattr(ch, 'properties', []) or []\<close>,
  so a missing attribute, \<^verbatim>\<open>None\<close> and the empty list are the same: the empty list here.
  A service: its \<^verbatim>\<open>characteristics\<close>, the empty list when the attribute is missing.
\<close>

record BLEDevice =
  d_name :: "string option"
  d_address :: string

record characteristic =
  uuid :: string
  properties :: "string list"

record service =
  characteristics :: "characteristic list"

text \<open>\<^verbatim>\<open>BleakClient(address)\<close>: the handle of a connection to one address.\<close>

datatype BleakClient = BleakClient string

fun client_address :: "BleakClient \<Rightarrow> string" where
  "client_address (BleakClient a) = a"

text \<open>
  \<open>RuntimeError m\<close> is a \<^verbatim>\<open>RuntimeError(m)\<close> the program raises itself;
  \<open>RecursionError m\<close> is a \<^verbatim>\<open>RecursionError\<close>, which line 73 catches apart;
  \<open>BackendError m\<close> is any other \<^verbatim>\<open>Exception\<close> raised by a call into bleak;
  \<open>IOError m\<close> is an \<^verbatim>\<open>Exception\<close> raised by \<^verbatim>\<open>print\<close> or by writing the log file
  (\<^verbatim>\<open>OSError\<close>, \<^verbatim>\<open>ValueError\<close> on a closed file). \<open>m\<close> is the \<^verbatim>\<open>str()\<close> of the exception.
\<close>

datatype exn =
    RuntimeError string
  | RecursionError string
  | BackendError string
  | IOError string

fun str_exn :: "exn \<Rightarrow> string" where
  "str_exn (RuntimeError m) = m"
| "str_exn (RecursionError m) = m"
| "str_exn (BackendError m) = m"
| "str_exn (IOError m) = m"

text \<open>
  The value of \<^verbatim>\<open>client.services\<close> when it is not \<^verbatim>\<open>None\<close>: a sequence such as a list,
  which is false when empty, or a collection object without \<^verbatim>\<open>__len__\<close> and
  \<^verbatim>\<open>__bool__\<close>, as bleak's \<^verbatim>\<open>BleakGATTServiceCollection\<close>, which is always true. Both
  are iterated the same way.
\<close>

datatype services_value = PyList "service list" | Collection "service list"

fun services_of :: "services_value \<Rightarrow> service list" where
  "services_of (PyList svcs) = svcs"
| "services_of (Collection svcs) = svcs"

fun truthy_value :: "services_value \<Rightarrow> bool" where
  "truthy_value (PyList svcs) = (svcs \<noteq> [])"
| "truthy_value (Collection svcs) = True"

text \<open>
  The calls made on the radio stack and on the event loop's clock, in the order made:
  \<open>WriteGattChar a u payload response\<close> is \<^verbatim>\<open>write_gatt_char(u, payload, response=response)\<close>
  on the client of address \<open>a\<close>. \<open>ShowError\<close> is \<^verbatim>\<open>messagebox.showerror\<close>.
\<close>

datatype call =
    Discover real
  | ClientConnect string
  | ClientDisconnect string
  | Sleep real
  | WriteGattChar string string string bool
  | ShowError string string

text \<open>
  The answers of the platform during one coroutine:
  \<^item> \<open>bleak_discover timeout\<close>: the devices \<^verbatim>\<open>BleakScanner.discover\<close> returns, or what it raises;
  \<^item> \<open>bleak_client address\<close>: \<open>None\<close> when the constructor \<^verbatim>\<open>BleakClient(address, loop=...)\<close>
    returns, or what it raises;
  \<^item> \<open>client_connect address\<close>: \<open>None\<close> when \<^verbatim>\<open>client.connect()\<close> returns, or what it raises;
  \<^item> \<open>client_services n\<close>: the value of \<^verbatim>\<open>getattr(client, "services", None)\<close> at its
    \<open>n\<close>-th evaluation, from 0; \<open>Inr None\<close> stands for a missing attribute and for
    \<^verbatim>\<open>None\<close>, \<open>Inl e\<close> for a property that raises something other than
    \<^verbatim>\<open>AttributeError\<close>;
  \<^item> \<open>client_disconnect address\<close>: \<open>None\<close> when \<^verbatim>\<open>client.disconnect()\<close> returns, or what it raises;
  \<^item> \<open>client_write_gatt_char uuid payload response\<close>: the same for \<^verbatim>\<open>write_gatt_char\<close>;
  \<^item> \<open>stderr_print text\<close>: \<open>None\<close> when \<^verbatim>\<open>print(text, file=sys.stderr)\<close> returns, or what
    it raises;
  \<^item> \<open>write_error_log\<close>: the same for the block of lines 75 to 77 that writes
    \<^verbatim>\<open>main_error.log\<close>;
  \<^item> \<open>unicode_lower text\<close>: \<^verbatim>\<open>text.lower()\<close> for a text that is not ASCII.
\<close>

record adapter =
  bleak_discover :: "real \<Rightarrow> exn + BLEDevice list"
  bleak_client :: "string \<Rightarrow> exn option"
  client_connect :: "string \<Rightarrow> exn option"
  client_services :: "nat \<Rightarrow> exn + services_value option"
  client_disconnect :: "string \<Rightarrow> exn option"
  client_write_gatt_char :: "string \<Rightarrow> string \<Rightarrow> bool \<Rightarrow> exn option"
  stderr_print :: "string \<Rightarrow> exn option"
  write_error_log :: "exn option"
  unicode_lower :: "string \<Rightarrow> string"

text \<open>
  \<^verbatim>\<open>str.lower()\<close>. On ASCII text it maps \<^verbatim>\<open>A..Z\<close> to \<^verbatim>\<open>a..z\<close> and changes nothing
  else. On any other text it follows the Unicode tables of the interpreter (U+212A
  becomes \<^verbatim>\<open>k\<close>, for one), which are not part of the program.
\<close>

definition lower :: "adapter \<Rightarrow> string \<Rightarrow> string" where
  "lower env s = (if is_ascii s then ascii_lower s else unicode_lower env s)"

subsection \<open>\<^verbatim>\<open>BLEController\<close>\<close>

record BLEController =
  client :: "BleakClient option"
  char_uuid :: "string option"
  address :: "string option"
  connected :: bool

text \<open>\<^verbatim>\<open>BLEController.__init__\<close>\<close>

definition BLEController_init :: BLEController where
  "BLEController_init =
     \<lparr>client = None, char_uuid = None, address = None, connected = False\<rparr>"

text \<open>
  Lines 56 to 60: the first device with a non-empty name that is equal to \<^verbatim>\<open>name\<close>
  after \<^verbatim>\<open>lower()\<close> on both sides.
\<close>

fun find_target :: "adapter \<Rightarrow> string \<Rightarrow> BLEDevice list \<Rightarrow> BLEDevice option" where
  "find_target env nm [] = None"
| "find_target env nm (d # ds) =
     (case d_name d of
        None \<Rightarrow> find_target env nm ds
      | Some n \<Rightarrow>
          if n \<noteq> [] \<and> lower env n = lower env nm then Some d else find_target env nm ds)"

text \<open>Truth value of \<^verbatim>\<open>services\<close>, as \<^verbatim>\<open>not services\<close> and \<^verbatim>\<open>if services\<close> take it.\<close>

fun truthy_services :: "services_value option \<Rightarrow> bool" where
  "truthy_services None = False"
| "truthy_services (Some v) = truthy_value v"

text \<open>
  Lines 84 to 88, the loop \<^verbatim>\<open>while not services and retries < 10\<close>: each round sleeps
  0.1 s, reads \<^verbatim>\<open>client.services\<close> again and counts. The result is the last value
  read, or what the read raised, and the number of rounds begun.
\<close>

function poll_services ::
  "(nat \<Rightarrow> exn + services_value option) \<Rightarrow> services_value option \<Rightarrow> nat
     \<Rightarrow> (exn + services_value option) \<times> nat"
where
  "poll_services rd services retries =
     (if \<not> truthy_services services \<and> retries < 10
      then (case rd (retries + 1) of
              Inl e \<Rightarrow> (Inl e, retries + 1)
            | Inr services' \<Rightarrow> poll_services rd services' (retries + 1))
      else (Inr services, retries))"
  by pat_completeness auto
termination
  by (relation "measure (\<lambda>(rd, services, retries). 10 - retries)") auto

declare poll_services.simps [simp del]

text \<open>
  Lines 98 to 104. The inner loop stops at the first characteristic whose \<^verbatim>\<open>uuid\<close> is the
  known one after \<^verbatim>\<open>lower()\<close>; the outer loop stops once \<^verbatim>\<open>chosen_char_uuid\<close> is true.
\<close>

fun exact_in_service :: "adapter \<Rightarrow> string option \<Rightarrow> characteristic list \<Rightarrow> string option" where
  "exact_in_service env chosen [] = chosen"
| "exact_in_service env chosen (ch # chs) =
     (if lower env (uuid ch) = lower env COMMAND_CHAR_UUID then Some (uuid ch)
      else exact_in_service env chosen chs)"

fun exact_in_services :: "adapter \<Rightarrow> string option \<Rightarrow> service list \<Rightarrow> string option" where
  "exact_in_services env chosen [] = chosen"
| "exact_in_services env chosen (svc # svcs) =
     (let chosen' = exact_in_service env chosen (characteristics svc)
      in if truthy_str chosen' then chosen' else exact_in_services env chosen' svcs)"

text \<open>Lines 107 to 114, the same two loops for a characteristic that can be written.\<close>

definition writable :: "characteristic \<Rightarrow> bool" where
  "writable ch =
     (''write'' \<in> set (properties ch) \<or> ''write-without-response'' \<in> set (properties ch))"

fun writable_in_service :: "string option \<Rightarrow> characteristic list \<Rightarrow> string option" where
  "writable_in_service chosen [] = chosen"
| "writable_in_service chosen (ch # chs) =
     (if writable ch then Some (uuid ch) else writable_in_service chosen chs)"

fun writable_in_services :: "string option \<Rightarrow> service list \<Rightarrow> string option" where
  "writable_in_services chosen [] = chosen"
| "writable_in_services chosen (svc # svcs) =
     (let chosen' = writable_in_service chosen (characteristics svc)
      in if truthy_str chosen' then chosen' else writable_in_services chosen' svcs)"

text \<open>
  Lines 94 to 118: \<^verbatim>\<open>chosen_char_uuid\<close> after both searches, then
  \<^verbatim>\<open>chosen_char_uuid or COMMAND_CHAR_UUID\<close>.
\<close>

definition choose_char_uuid :: "adapter \<Rightarrow> services_value option \<Rightarrow> string option" where
  "choose_char_uuid env services =
     (case services of
        None \<Rightarrow> None
      | Some v \<Rightarrow>
          if \<not> truthy_value v then None
          else
            (let chosen = exact_in_services env None (services_of v)
             in if \<not> truthy_str chosen then writable_in_services chosen (services_of v)
                else chosen))"

definition resolve_char_uuid :: "adapter \<Rightarrow> services_value option \<Rightarrow> string" where
  "resolve_char_uuid env services =
     (case choose_char_uuid env services of
        None \<Rightarrow> COMMAND_CHAR_UUID
      | Some u \<Rightarrow> if u \<noteq> [] then u else COMMAND_CHAR_UUID)"

text \<open>
  \<^verbatim>\<open>try: await client.disconnect()\<close> \<^verbatim>\<open>except Exception: pass\<close>: the call is made, and
  what it raises is dropped.
\<close>

definition try_disconnect :: "adapter \<Rightarrow> BleakClient \<Rightarrow> call list" where
  "try_disconnect env cl =
     (case client_disconnect env (client_address cl) of
        None \<Rightarrow> [ClientDisconnect (client_address cl)]
      | Some e \<Rightarrow> [ClientDisconnect (client_address cl)])"

text \<open>
  Lines 73 to 79: a \<^verbatim>\<open>RecursionError\<close> of \<^verbatim>\<open>client.connect()\<close> is written to the log
  file, reported on stderr and raised again; what the writing or the print raises
  takes its place.
\<close>

definition connect_failed :: "adapter \<Rightarrow> exn \<Rightarrow> exn" where
  "connect_failed env e =
     (case e of
        RecursionError m \<Rightarrow>
          (case write_error_log env of
             Some e' \<Rightarrow> e'
           | None \<Rightarrow>
               (case stderr_print env
                       ''RecursionError captured during connect to main_error.log'' of
                  Some e' \<Rightarrow> e'
                | None \<Rightarrow> e))
      | _ \<Rightarrow> e)"

text \<open>
  Lines 89 to 121, once the loop has ended: the print about the services, the choice of
  the characteristic, the assignments to \<^verbatim>\<open>self.client\<close> and \<^verbatim>\<open>self.char_uuid\<close>, the
  print of line 119, and only then \<^verbatim>\<open>self.connected = True\<close>.
\<close>

definition finalize ::
  "adapter \<Rightarrow> BleakClient \<Rightarrow> services_value option \<Rightarrow> BLEController
     \<Rightarrow> (exn + bool) \<times> BLEController"
where
  "finalize env cl services s =
     (case stderr_print env
             (if truthy_services services then ''DEBUG: services present after connect''
              else ''DEBUG: services not populated, will proceed with known UUID'') of
        Some e \<Rightarrow> (Inl e, s)
      | None \<Rightarrow>
          (let s2 = s\<lparr>client := Some cl, char_uuid := Some (resolve_char_uuid env services)\<rparr>
           in case stderr_print env (''DEBUG: using char '' @ resolve_char_uuid env services) of
                Some e \<Rightarrow> (Inl e, s2)
              | None \<Rightarrow> (Inr True, s2\<lparr>connected := True\<rparr>)))"

text \<open>Lines 69 to 121, the body of the \<^verbatim>\<open>try\<close> block, with the calls it makes.\<close>

definition connect_and_resolve ::
  "adapter \<Rightarrow> BleakClient \<Rightarrow> BLEController \<Rightarrow> (exn + bool) \<times> BLEController \<times> call list"
where
  "connect_and_resolve env cl s =
     (let a = client_address cl
      in case stderr_print env (''DEBUG: scan_and_connect -> connecting to '' @ a) of
           Some e \<Rightarrow> (Inl e, s, [])
         | None \<Rightarrow>
             (case client_connect env a of
                Some e \<Rightarrow> (Inl (connect_failed env e), s, [ClientConnect a])
              | None \<Rightarrow>
                  (case stderr_print env ''DEBUG: connected'' of
                     Some e \<Rightarrow> (Inl e, s, [ClientConnect a])
                   | None \<Rightarrow>
                       (case client_services env 0 of
                          Inl e \<Rightarrow> (Inl e, s, [ClientConnect a])
                        | Inr services0 \<Rightarrow>
                            (case poll_services (client_services env) services0 0 of
                               (Inl e, retries) \<Rightarrow>
                                 (Inl e, s, ClientConnect a # replicate retries (Sleep (1 / 10)))
                             | (Inr services, retries) \<Rightarrow>
                                 (case finalize env cl services s of
                                    (r, s') \<Rightarrow>
                                      (r, s',
                                       ClientConnect a # replicate retries (Sleep (1 / 10)))))))))"

text \<open>
  \<^verbatim>\<open>BLEController.scan_and_connect\<close>. \<open>bleak\<close> says whether the import of bleak succeeded
  (\<^verbatim>\<open>BleakScanner is None\<close> otherwise); it is fixed when the module is loaded. Discovery
  and the constructor of the client are before the \<^verbatim>\<open>try\<close>; whatever its body raises,
  the handler of lines 122 to 127 disconnects the client and raises it again, and
  resets no field.
\<close>

definition scan_and_connect ::
  "bool \<Rightarrow> adapter \<Rightarrow> string \<Rightarrow> real \<Rightarrow> BLEController \<Rightarrow> (exn + bool) \<times> BLEController \<times> call list"
where
  "scan_and_connect bleak env nm timeout s =
     (if \<not> bleak then (Inl (RuntimeError ''bleak is not installed''), s, [])
      else if connected s then (Inr True, s, [])
      else
        (case bleak_discover env timeout of
           Inl e \<Rightarrow> (Inl e, s, [Discover timeout])
         | Inr devices \<Rightarrow>
             (case find_target env nm devices of
                None \<Rightarrow> (Inr False, s, [Discover timeout])
              | Some target \<Rightarrow>
                  (let a = d_address target;
                       s1 = s\<lparr>address := Some a\<rparr>
                   in case bleak_client env a of
                        Some e \<Rightarrow> (Inl e, s1, [Discover timeout])
                      | None \<Rightarrow>
                          (case connect_and_resolve env (BleakClient a) s1 of
                             (Inr ok, s', cs) \<Rightarrow> (Inr ok, s', Discover timeout # cs)
                           | (Inl e, s', cs) \<Rightarrow>
                               (Inl e, s',
                                Discover timeout # cs @ try_disconnect env (BleakClient a)))))))"

text \<open>
  \<^verbatim>\<open>BLEController.disconnect\<close>: what \<^verbatim>\<open>client.disconnect()\<close> raises is dropped, so the
  coroutine always returns.
\<close>

definition disconnect :: "adapter \<Rightarrow> BLEController \<Rightarrow> (exn + unit) \<times> BLEController \<times> call list" where
  "disconnect env s =
     (Inr (),
      s\<lparr>client := None, char_uuid := None, connected := False\<rparr>,
      (case client s of
         None \<Rightarrow> []
       | Some cl \<Rightarrow> if connected s then try_disconnect env cl else []))"

text \<open>\<^verbatim>\<open>BLEController.send\<close>\<close>

definition send ::
  "adapter \<Rightarrow> string \<Rightarrow> bool \<Rightarrow> BLEController \<Rightarrow> (exn + unit) \<times> BLEController \<times> call list"
where
  "send env payload require_response s =
     (case client s of
        None \<Rightarrow> (Inl (RuntimeError ''Not connected''), s, [])
      | Some cl \<Rightarrow>
          if \<not> (connected s \<and> truthy_str (char_uuid s))
          then (Inl (RuntimeError ''Not connected''), s, [])
          else
            (case char_uuid s of
               None \<Rightarrow> (Inl (RuntimeError ''Not connected''), s, [])
             | Some u \<Rightarrow>
                 (let w = WriteGattChar (client_address cl) u payload require_response
                  in case client_write_gatt_char env u payload require_response of
                       Some e \<Rightarrow> (Inl e, s, [w])
                     | None \<Rightarrow> (Inr (), s, [w]))))"

subsection \<open>\<^verbatim>\<open>App\<close>\<close>

text \<open>
  \<^verbatim>\<open>bytes.decode('utf-8', errors='replace')\<close>, on the bytes of the text it returns:
  well-formed UTF-8 is kept, and each maximal ill-formed part becomes U+FFFD
  (bytes EF BF BD).
\<close>

definition byte_in :: "char \<Rightarrow> nat \<Rightarrow> nat \<Rightarrow> bool" where
  "byte_in c lo hi = (lo \<le> of_char c \<and> (of_char c :: nat) \<le> hi)"

definition REPLACEMENT :: string where
  "REPLACEMENT = [char_of (0xEF :: nat), char_of (0xBF :: nat), char_of (0xBD :: nat)]"

definition second_lo :: "char \<Rightarrow> nat" where
  "second_lo b0 = (if byte_in b0 0xE0 0xE0 then 0xA0 else if byte_in b0 0xF0 0xF0 then 0x90 else 0x80)"

definition second_hi :: "char \<Rightarrow> nat" where
  "second_hi b0 = (if byte_in b0 0xED 0xED then 0x9F else if byte_in b0 0xF4 0xF4 then 0x8F else 0xBF)"

fun decode_replace :: "string \<Rightarrow> string" where
  "decode_replace [] = []"
| "decode_replace (b0 # bs) =
     (if byte_in b0 0 0x7F then b0 # decode_replace bs
      else if byte_in b0 0xC2 0xDF then
        (case bs of
           [] \<Rightarrow> REPLACEMENT
         | b1 # r1 \<Rightarrow>
             if byte_in b1 0x80 0xBF then b0 # b1 # decode_replace r1
             else REPLACEMENT @ decode_replace bs)
      else if byte_in b0 0xE0 0xEF then
        (case bs of
           [] \<Rightarrow> REPLACEMENT
         | b1 # r1 \<Rightarrow>
             if \<not> byte_in b1 (second_lo b0) (second_hi b0) then REPLACEMENT @ decode_replace bs
             else
               (case r1 of
                  [] \<Rightarrow> REPLACEMENT
                | b2 # r2 \<Rightarrow>
                    if byte_in b2 0x80 0xBF then b0 # b1 # b2 # decode_replace r2
                    else REPLACEMENT @ decode_replace r1))
      else if byte_in b0 0xF0 0xF4 then
        (case bs of
           [] \<Rightarrow> REPLACEMENT
         | b1 # r1 \<Rightarrow>
             if \<not> byte_in b1 (second_lo b0) (second_hi b0) then REPLACEMENT @ decode_replace bs
             else
               (case r1 of
                  [] \<Rightarrow> REPLACEMENT
                | b2 # r2 \<Rightarrow>
                    if \<not> byte_in b2 0x80 0xBF then REPLACEMENT @ decode_replace r1
                    else
                      (case r2 of
                         [] \<Rightarrow> REPLACEMENT
                       | b3 # r3 \<Rightarrow>
                           if byte_in b3 0x80 0xBF then b0 # b1 # b2 # b3 # decode_replace r3
                           else REPLACEMENT @ decode_replace r2)))
      else REPLACEMENT @ decode_replace bs)"

declare decode_replace.simps [simp del]

text \<open>
  The part of \<^verbatim>\<open>App\<close> that the operations read and write: the controller, and the text
  of the status label. \<^verbatim>\<open>_set_status\<close> hands the update to the Tk main loop, which
  applies the updates in the order they were handed over; \<open>status_var\<close> is the text
  once they are all applied.
\<close>

record App =
  ble :: BLEController
  status_var :: string

definition App_init :: App where
  "App_init = \<lparr>ble = BLEController_init, status_var = ''Not connected''\<rparr>"

definition set_status :: "string \<Rightarrow> App \<Rightarrow> App" where
  "set_status txt app = app\<lparr>status_var := txt\<rparr>"

definition quoted :: "string \<Rightarrow> string" where
  "quoted s = [CHR 0x27] @ s @ [CHR 0x27]"

text \<open>\<^verbatim>\<open>App._connect_and_update\<close>: it catches every exception and returns.\<close>

definition connect_and_update :: "bool \<Rightarrow> adapter \<Rightarrow> App \<Rightarrow> (exn + unit) \<times> App \<times> call list" where
  "connect_and_update bleak env app =
     (let app1 = set_status (''Scanning for '' @ DEVICE_NAME @ ''...'') app
      in case scan_and_connect bleak env DEVICE_NAME 5 (ble app1) of
           (Inr ok, s', cs) \<Rightarrow>
             (Inr (),
              set_status
                (if ok then ''Connected to '' @ DEVICE_NAME
                 else ''Device '' @ quoted DEVICE_NAME @ '' not found or no writable char'')
                (app1\<lparr>ble := s'\<rparr>),
              cs)
         | (Inl e, s', cs) \<Rightarrow>
             (Inr (), set_status (''Connection error: '' @ str_exn e) (app1\<lparr>ble := s'\<rparr>), cs))"

text \<open>Lines 294 to 300 of \<^verbatim>\<open>App._send_command\<close>: the write and the status it leaves.\<close>

definition send_and_report :: "adapter \<Rightarrow> string \<Rightarrow> App \<Rightarrow> (exn + unit) \<times> App \<times> call list" where
  "send_and_report env payload app =
     (case send env payload REQUIRE_RESPONSE_ON_WRITE (ble app) of
        (Inr _, s', cs) \<Rightarrow>
          (Inr (), set_status (''Sent: '' @ decode_replace payload) (app\<lparr>ble := s'\<rparr>), cs)
      | (Inl e, s', cs) \<Rightarrow>
          (Inl e, set_status (''Send failed: '' @ str_exn e) (app\<lparr>ble := s'\<rparr>), cs))"

text \<open>\<^verbatim>\<open>App._send_command\<close>\<close>

definition send_command ::
  "bool \<Rightarrow> adapter \<Rightarrow> string \<Rightarrow> App \<Rightarrow> (exn + unit) \<times> App \<times> call list"
where
  "send_command bleak env payload app =
     (if \<not> connected (ble app) then
        (case scan_and_connect bleak env DEVICE_NAME 5 (ble app) of
           (Inl e, s', cs) \<Rightarrow>
             (Inl e, set_status (''Connection error: '' @ str_exn e) (app\<lparr>ble := s'\<rparr>), cs)
         | (Inr ok, s', cs) \<Rightarrow>
             if \<not> ok then
               (Inl (RuntimeError ''Device not connected''),
                set_status (''Device '' @ quoted DEVICE_NAME @ '' not found'') (app\<lparr>ble := s'\<rparr>),
                cs)
             else
               (case send_and_report env payload (app\<lparr>ble := s'\<rparr>) of
                  (r, app', cs') \<Rightarrow> (r, app', cs @ cs')))
      else send_and_report env payload app)"

text \<open>
  \<^verbatim>\<open>App.on_button\<close>, with the coroutine it schedules run to its end and the callback
  \<^verbatim>\<open>_on_done\<close> applied to the outcome.
\<close>

definition on_button :: "bool \<Rightarrow> adapter \<Rightarrow> string \<Rightarrow> App \<Rightarrow> App \<times> call list" where
  "on_button bleak env nm app =
     (case COMMANDS nm of
        None \<Rightarrow> (app, [ShowError ''Error'' (''Unknown command: '' @ nm)])
      | Some base \<Rightarrow>
          if base = [] then (app, [ShowError ''Error'' (''Unknown command: '' @ nm)])
          else
            (let payload = base
             in case send_command bleak env payload app of
                  (Inr _, app', cs) \<Rightarrow> (app', cs)
                | (Inl e, app', cs) \<Rightarrow> (set_status (''Send error: '' @ str_exn e) app', cs)))"

subsection \<open>The states the controller can be in\<close>

text \<open>
  The fields of the controller are written by its three coroutines only, so its states
  are the ones these reach from \<^verbatim>\<open>__init__\<close>, whatever the radio stack answers.
\<close>

inductive reachable :: "bool \<Rightarrow> BLEController \<Rightarrow> bool" for bleak :: bool where
  reach_init: "reachable bleak BLEController_init"
| reach_connect:
    "reachable bleak s \<Longrightarrow> reachable bleak (fst (snd (scan_and_connect bleak env nm timeout s)))"
| reach_disconnect: "reachable bleak s \<Longrightarrow> reachable bleak (fst (snd (disconnect env s)))"
| reach_send: "reachable bleak s \<Longrightarrow> reachable bleak (fst (snd (send env payload rr s)))"

subsection \<open>The properties, in the words of the specification\<close>


text \<open>Equal without regard to case.\<close>

definition ci_equal :: "adapter \<Rightarrow> string \<Rightarrow> string \<Rightarrow> bool" where
  "ci_equal env a b = (lower env a = lower env b)"



text \<open>
  The invariant of the specification: a client is held exactly when \<open>connected\<close> is
  set, and then a non-empty \<open>char_uuid\<close> is held too.
\<close>

definition invariant :: "BLEController \<Rightarrow> bool" where
  "invariant s =
     (if connected s then client s \<noteq> None \<and> truthy_str (char_uuid s) else client s = None)"

text \<open>The half of it that \<^verbatim>\<open>send\<close> needs: with \<open>connected\<close> set, nothing is missing.\<close>

definition link_complete :: "BLEController \<Rightarrow> bool" where
  "link_complete s = (connected s \<longrightarrow> client s \<noteq> None \<and> truthy_str (char_uuid s))"

text \<open>A read of \<^verbatim>\<open>client.services\<close> that returns, and shows no service.\<close>

definition shows_no_service :: "exn + services_value option \<Rightarrow> bool" where
  "shows_no_service r =
     (case r of
        Inl e \<Rightarrow> False
      | Inr None \<Rightarrow> True
      | Inr (Some v) \<Rightarrow> services_of v = [])"

text \<open>The condition of line 142 under which \<^verbatim>\<open>send\<close> goes on to write.\<close>

definition send_guard :: "BLEController \<Rightarrow> bool" where
  "send_guard s = (client s \<noteq> None \<and> connected s \<and> truthy_str (char_uuid s))"

text \<open>The two errors by which the program itself reports that there is no connection.\<close>

definition not_connected_error :: "exn \<Rightarrow> bool" where
  "not_connected_error e =
     (e = RuntimeError ''Not connected'' \<or> e = RuntimeError ''Device not connected'')"

definition is_write :: "call \<Rightarrow> bool" where
  "is_write c = (case c of WriteGattChar a u p r \<Rightarrow> True | _ \<Rightarrow> False)"

definition is_open :: "call \<Rightarrow> bool" where
  "is_open c = (case c of ClientConnect a \<Rightarrow> True | _ \<Rightarrow> False)"

definition is_sleep :: "call \<Rightarrow> bool" where
  "is_sleep c = (case c of Sleep t \<Rightarrow> True | _ \<Rightarrow> False)"

subsection \<open>Concrete radio stacks and states\<close>

definition robot :: BLEDevice where
  "robot = \<lparr>d_name = Some ''ArduBotR4'', d_address = ''AA:BB''\<rparr>"

definition robot2 :: BLEDevice where
  "robot2 = \<lparr>d_name = Some ''ARDUBOTR4'', d_address = ''CC:DD''\<rparr>"

definition other_device :: BLEDevice where
  "other_device = \<lparr>d_name = Some ''thermometer'', d_address = ''EE:FF''\<rparr>"

definition unnamed_device :: BLEDevice where
  "unnamed_device = \<lparr>d_name = None, d_address = ''00:11''\<rparr>"

definition blank_device :: BLEDevice where
  "blank_device = \<lparr>d_name = Some [], d_address = ''22:33''\<rparr>"

definition blank_device2 :: BLEDevice where
  "blank_device2 = \<lparr>d_name = Some [], d_address = ''44:55''\<rparr>"

text \<open>The robot answers, connects, and never shows a service.\<close>

definition quiet_stack :: adapter where
  "quiet_stack =
     \<lparr>bleak_discover = (\<lambda>t. Inr [other_device, robot, robot2]),
      bleak_client = (\<lambda>a. None),
      client_connect = (\<lambda>a. None),
      client_services = (\<lambda>n. Inr None),
      client_disconnect = (\<lambda>a. Some (BackendError ''disconnect failed'')),
      client_write_gatt_char = (\<lambda>u p r. None),
      stderr_print = (\<lambda>m. None),
      write_error_log = None,
      unicode_lower = (\<lambda>s. s)\<rparr>"

text \<open>The robot answers, and the connection to it times out.\<close>

definition refusing_stack :: adapter where
  "refusing_stack = quiet_stack\<lparr>client_connect := (\<lambda>a. Some (BackendError ''timeout''))\<rparr>"

text \<open>No robot in range.\<close>

definition empty_stack :: adapter where
  "empty_stack = quiet_stack\<lparr>bleak_discover := (\<lambda>t. Inr [other_device, unnamed_device])\<rparr>"

text \<open>Devices with an empty name only.\<close>

definition blank_name_stack :: adapter where
  "blank_name_stack = quiet_stack\<lparr>bleak_discover := (\<lambda>t. Inr [blank_device, blank_device2])\<rparr>"

text \<open>The services are an empty collection that is true, as bleak's is.\<close>

definition collection_stack :: adapter where
  "collection_stack = quiet_stack\<lparr>client_services := (\<lambda>n. Inr (Some (Collection [])))\<rparr>"

text \<open>
  The reader of stderr has gone when line 119 prints: the print raises
  \<^verbatim>\<open>BrokenPipeError\<close>. The prints before it return.
\<close>

definition broken_pipe_stack :: adapter where
  "broken_pipe_stack =
     quiet_stack\<lparr>stderr_print :=
       (\<lambda>m. if m = ''DEBUG: using char '' @ COMMAND_CHAR_UUID
            then Some (IOError ''[Errno 32] Broken pipe'') else None)\<rparr>"

text \<open>Every write is rejected.\<close>

definition rejecting_stack :: adapter where
  "rejecting_stack =
     quiet_stack\<lparr>client_write_gatt_char := (\<lambda>u p r. Some (BackendError ''write failed''))\<rparr>"











text \<open>The controller after \<^verbatim>\<open>scan_and_connect\<close> on the quiet stack.\<close>

definition linked :: BLEController where
  "linked =
     \<lparr>client = Some (BleakClient ''AA:BB''), char_uuid = Some COMMAND_CHAR_UUID,
      address = Some ''AA:BB'', connected = True\<rparr>"

definition linked_app :: App where
  "linked_app = \<lparr>ble = linked, status_var = ''Connected to ardubotr4''\<rparr>"

text \<open>The controller after the print of line 119 has raised.\<close>

definition half_open :: BLEController where
  "half_open =
     \<lparr>client = Some (BleakClient ''AA:BB''), char_uuid = Some COMMAND_CHAR_UUID,
      address = Some ''AA:BB'', connected = False\<rparr>"

section \<open>Properties\<close>

subsection \<open>Lower case\<close>

lemma is_ascii_Nil: "is_ascii []"
  by (simp add: is_ascii_def)



lemma lower_DEVICE_NAME: "lower env DEVICE_NAME = ''ardubotr4''"
  by (simp add: lower_def is_ascii_def ascii_lower_def lower_char_def DEVICE_NAME_def)

lemma COMMAND_CHAR_UUID_nonempty: "COMMAND_CHAR_UUID \<noteq> []"
  by (simp add: COMMAND_CHAR_UUID_def)


subsection \<open>Searching the services\<close>







lemma resolve_char_uuid_nonempty: "resolve_char_uuid env services \<noteq> []"
  by (simp add: resolve_char_uuid_def COMMAND_CHAR_UUID_nonempty split: option.splits)

lemma resolve_None: "resolve_char_uuid env None = COMMAND_CHAR_UUID"
  by (simp add: resolve_char_uuid_def choose_char_uuid_def)


lemma resolve_no_service: "services_of v = [] \<Longrightarrow> resolve_char_uuid env (Some v) = COMMAND_CHAR_UUID"
  by (simp add: resolve_char_uuid_def choose_char_uuid_def Let_def)

lemma resolve_falsy: "\<not> truthy_services sv \<Longrightarrow> resolve_char_uuid env sv = COMMAND_CHAR_UUID"
  by (cases sv) (simp_all add: resolve_char_uuid_def choose_char_uuid_def)




subsection \<open>The polling loop\<close>

lemma poll_services_done: "truthy_services sv \<Longrightarrow> poll_services rd sv r = (Inr sv, r)"
  by (simp add: poll_services.simps)

lemma poll_services_limit: "10 \<le> r \<Longrightarrow> poll_services rd sv r = (Inr sv, r)"
  by (simp add: poll_services.simps)

lemma poll_services_bound: "snd (poll_services rd sv r) \<le> max r 10"
proof (induction rd sv r rule: poll_services.induct)
  case (1 rd services retries)
  show ?case
  proof (cases "\<not> truthy_services services \<and> retries < 10")
    case True
    show ?thesis
    proof (cases "rd (retries + 1)")
      case (Inl e)
      with True show ?thesis
        by (subst poll_services.simps) simp
    next
      case (Inr sv')
      with True "1" [OF True Inr] show ?thesis
        by (subst poll_services.simps) (simp add: max_def split: if_splits)
    qed
  next
    case False
    then show ?thesis
      by (subst poll_services.simps) auto
  qed
qed

text \<open>Reads that return and are false every time: ten rounds, then the last value.\<close>

lemma poll_services_never:
  "(\<forall>n. \<exists>x. rd n = Inr x \<and> \<not> truthy_services x) \<Longrightarrow> \<not> truthy_services sv \<Longrightarrow> r < 10 \<Longrightarrow>
     \<exists>x. rd 10 = Inr x \<and> poll_services rd sv r = (Inr x, 10)"
proof (induction rd sv r rule: poll_services.induct)
  case (1 rd services retries)
  from "1.prems"(1) obtain x where x: "rd (retries + 1) = Inr x" and fx: "\<not> truthy_services x"
    by blast
  from "1.prems" have c: "\<not> truthy_services services \<and> retries < 10" by simp
  have step: "poll_services rd services retries = poll_services rd x (retries + 1)"
    using c x by (subst poll_services.simps) simp
  show ?case
  proof (cases "retries + 1 < 10")
    case True
    from "1.IH" [OF c x "1.prems"(1) fx True] step show ?thesis by simp
  next
    case False
    with "1.prems" have r: "retries + 1 = 10" by simp
    have "poll_services rd x (retries + 1) = (Inr x, 10)"
      unfolding r by (rule poll_services_limit) simp
    with step x r show ?thesis by simp
  qed
qed

text \<open>Reads that return and show no service: at most ten rounds, and no service at the end.\<close>

lemma poll_services_no_service:
  "(\<forall>n. shows_no_service (rd n)) \<Longrightarrow> shows_no_service (Inr sv) \<Longrightarrow>
     \<exists>x k. poll_services rd sv r = (Inr x, k) \<and> shows_no_service (Inr x) \<and> k \<le> max r 10"
proof (induction rd sv r rule: poll_services.induct)
  case (1 rd services retries)
  show ?case
  proof (cases "\<not> truthy_services services \<and> retries < 10")
    case True
    from "1.prems"(1) obtain x where x: "rd (retries + 1) = Inr x"
      and nx: "shows_no_service (Inr x)"
      by (cases "rd (retries + 1)") (auto simp: shows_no_service_def dest: spec [of _ "retries + 1"])
    have step: "poll_services rd services retries = poll_services rd x (retries + 1)"
      using True x by (subst poll_services.simps) simp
    from "1.IH" [OF True x "1.prems"(1) nx] obtain y k where
      "poll_services rd x (retries + 1) = (Inr y, k)" "shows_no_service (Inr y)"
      "k \<le> max (retries + 1) 10"
      by blast
    with step True show ?thesis
      by (auto simp: max_def split: if_splits)
  next
    case False
    then have "poll_services rd services retries = (Inr services, retries)"
      by (subst poll_services.simps) auto
    with "1.prems"(2) show ?thesis by simp
  qed
qed

subsection \<open>The branches of \<^verbatim>\<open>scan_and_connect\<close>\<close>

lemmas device_defs = robot_def robot2_def other_device_def unnamed_device_def
  blank_device_def blank_device2_def
lemmas lower_defs = lower_def is_ascii_def ascii_lower_def lower_char_def

text \<open>What the end of the \<^verbatim>\<open>try\<close> block can leave behind.\<close>

lemma finalize_cases:
  "finalize env cl sv s = (Inr True,
       s\<lparr>client := Some cl, char_uuid := Some (resolve_char_uuid env sv), connected := True\<rparr>)
   \<or> (\<exists>e. finalize env cl sv s = (Inl e, s))
   \<or> (\<exists>e. finalize env cl sv s =
         (Inl e, s\<lparr>client := Some cl, char_uuid := Some (resolve_char_uuid env sv)\<rparr>))"
  by (simp add: finalize_def Let_def split: option.splits)

lemma finalize_prints:
  "\<forall>m. stderr_print env m = None \<Longrightarrow>
   finalize env cl sv s = (Inr True,
       s\<lparr>client := Some cl, char_uuid := Some (resolve_char_uuid env sv), connected := True\<rparr>)"
  by (simp add: finalize_def Let_def)

lemma finalize_link_complete:
  "\<not> connected s \<Longrightarrow> link_complete (snd (finalize env cl sv s))"
  using finalize_cases [of env cl sv s]
  by (auto simp: link_complete_def resolve_char_uuid_nonempty)

lemma finalize_connected:
  "connected (snd (finalize env cl sv s)) \<Longrightarrow> \<not> connected s \<Longrightarrow>
   finalize env cl sv s = (Inr True,
       s\<lparr>client := Some cl, char_uuid := Some (resolve_char_uuid env sv), connected := True\<rparr>)"
  using finalize_cases [of env cl sv s] by auto


text \<open>The body of the \<^verbatim>\<open>try\<close> block: it either stops early, the controller untouched, or reaches its end.\<close>

lemma connect_and_resolve_cases:
  "(\<exists>e cs. connect_and_resolve env cl s = (Inl e, s, cs)
        \<and> filter is_write cs = [] \<and> length (filter is_sleep cs) \<le> 10)
   \<or> (\<exists>sv0 sv k. client_services env 0 = Inr sv0
        \<and> poll_services (client_services env) sv0 0 = (Inr sv, k) \<and> k \<le> 10
        \<and> connect_and_resolve env cl s =
            (fst (finalize env cl sv s), snd (finalize env cl sv s),
             ClientConnect (client_address cl) # replicate k (Sleep (1 / 10))))"
proof -
  have sl: "length (filter is_sleep (replicate k (Sleep (1 / 10)))) = k" for k
    by (induction k) (simp_all add: is_sleep_def)
  have wr: "filter is_write (replicate k (Sleep (1 / 10))) = []" for k
    by (induction k) (simp_all add: is_write_def)
  have b: "snd (poll_services (client_services env) sv0 0) \<le> 10" for sv0
    using poll_services_bound [of "client_services env" sv0 0] by simp
  show ?thesis
  proof (cases "stderr_print env (''DEBUG: scan_and_connect -> connecting to '' @ client_address cl)")
    case (Some e)
    then show ?thesis by (simp add: connect_and_resolve_def Let_def)
  next
    case p1: None
    show ?thesis
    proof (cases "client_connect env (client_address cl)")
      case (Some e)
      with p1 show ?thesis
        by (simp add: connect_and_resolve_def Let_def is_write_def is_sleep_def)
    next
      case c: None
      show ?thesis
      proof (cases "stderr_print env ''DEBUG: connected''")
        case (Some e)
        with p1 c show ?thesis
          by (simp add: connect_and_resolve_def Let_def is_write_def is_sleep_def)
      next
        case p2: None
        show ?thesis
        proof (cases "client_services env 0")
          case (Inl e)
          with p1 c p2 show ?thesis
            by (simp add: connect_and_resolve_def Let_def is_write_def is_sleep_def)
        next
          case (Inr sv0)
          obtain r k where pk: "poll_services (client_services env) sv0 0 = (r, k)"
            by (cases "poll_services (client_services env) sv0 0") auto
          with b [of sv0] have k: "k \<le> 10" by simp
          show ?thesis
          proof (cases r)
            case (Inl e)
            with p1 c p2 Inr pk k show ?thesis
              by (simp add: connect_and_resolve_def Let_def is_write_def is_sleep_def sl wr)
          next
            case r: (Inr sv)
            with p1 c p2 Inr pk k show ?thesis
              by (simp add: connect_and_resolve_def Let_def split: prod.splits)
          qed
        qed
      qed
    qed
  qed
qed

lemma scan_and_connect_connected:
  "bleak \<Longrightarrow> connected s \<Longrightarrow> scan_and_connect bleak env nm t s = (Inr True, s, [])"
  by (simp add: scan_and_connect_def)

lemma scan_and_connect_not_found:
  "bleak \<Longrightarrow> \<not> connected s \<Longrightarrow> bleak_discover env t = Inr devices \<Longrightarrow>
   find_target env nm devices = None \<Longrightarrow>
   scan_and_connect bleak env nm t s = (Inr False, s, [Discover t])"
  by (simp add: scan_and_connect_def)

lemma scan_and_connect_refused:
  "bleak \<Longrightarrow> \<not> connected s \<Longrightarrow> bleak_discover env t = Inr devices \<Longrightarrow>
   find_target env nm devices = Some d \<Longrightarrow> bleak_client env (d_address d) = None \<Longrightarrow>
   stderr_print env (''DEBUG: scan_and_connect -> connecting to '' @ d_address d) = None \<Longrightarrow>
   client_connect env (d_address d) = Some e \<Longrightarrow> connect_failed env e = e' \<Longrightarrow>
   scan_and_connect bleak env nm t s =
     (Inl e', s\<lparr>address := Some (d_address d)\<rparr>,
      [Discover t, ClientConnect (d_address d), ClientDisconnect (d_address d)])"
  by (simp add: scan_and_connect_def connect_and_resolve_def try_disconnect_def Let_def
      split: option.splits)

lemma scan_and_connect_success:
  "bleak \<Longrightarrow> \<not> connected s \<Longrightarrow> bleak_discover env t = Inr devices \<Longrightarrow>
   find_target env nm devices = Some d \<Longrightarrow> bleak_client env (d_address d) = None \<Longrightarrow>
   \<forall>m. stderr_print env m = None \<Longrightarrow>
   client_connect env (d_address d) = None \<Longrightarrow> client_services env 0 = Inr sv0 \<Longrightarrow>
   poll_services (client_services env) sv0 0 = (Inr sv, k) \<Longrightarrow>
   scan_and_connect bleak env nm t s =
     (Inr True,
      s\<lparr>address := Some (d_address d), client := Some (BleakClient (d_address d)),
        char_uuid := Some (resolve_char_uuid env sv), connected := True\<rparr>,
      [Discover t, ClientConnect (d_address d)] @ replicate k (Sleep (1 / 10)))"
  by (simp add: scan_and_connect_def connect_and_resolve_def finalize_prints Let_def)

text \<open>What every branch has in common.\<close>

lemma connect_and_resolve_no_write:
  "filter is_write (snd (snd (connect_and_resolve env cl s))) = []"
proof -
  have wr: "filter is_write (replicate k (Sleep (1 / 10))) = []" for k
    by (induction k) (simp_all add: is_write_def)
  from connect_and_resolve_cases [of env cl s] show ?thesis
    by (auto simp: wr is_write_def)
qed

lemma connect_and_resolve_sleeps:
  "length (filter is_sleep (snd (snd (connect_and_resolve env cl s)))) \<le> 10"
proof -
  have sl: "length (filter is_sleep (replicate k (Sleep (1 / 10)))) = k" for k
    by (induction k) (simp_all add: is_sleep_def)
  from connect_and_resolve_cases [of env cl s] show ?thesis
    by (auto simp: sl is_sleep_def)
qed

lemma connect_and_resolve_link_complete:
  "\<not> connected s \<Longrightarrow> link_complete (fst (snd (connect_and_resolve env cl s)))"
  using connect_and_resolve_cases [of env cl s] finalize_link_complete [of s env cl]
  by (auto simp: link_complete_def)


text \<open>\<^verbatim>\<open>scan_and_connect\<close> once discovery has found the target.\<close>

lemma scan_and_connect_found:
  assumes "bleak" and "\<not> connected s" and "bleak_discover env t = Inr devices"
    and "find_target env nm devices = Some d"
  shows "scan_and_connect bleak env nm t s =
     (case bleak_client env (d_address d) of
        Some e \<Rightarrow> (Inl e, s\<lparr>address := Some (d_address d)\<rparr>, [Discover t])
      | None \<Rightarrow>
          (case connect_and_resolve env (BleakClient (d_address d))
                   (s\<lparr>address := Some (d_address d)\<rparr>) of
             (Inr ok, s', cs) \<Rightarrow> (Inr ok, s', Discover t # cs)
           | (Inl e, s', cs) \<Rightarrow>
               (Inl e, s', Discover t # cs @ try_disconnect env (BleakClient (d_address d)))))"
  using assms by (simp add: scan_and_connect_def Let_def)

lemma try_disconnect_call: "try_disconnect env cl = [ClientDisconnect (client_address cl)]"
  by (simp add: try_disconnect_def split: option.splits)

lemma scan_and_connect_cases:
  assumes "scan_and_connect bleak env nm t s = (r, s', cs)"
  shows "(s' = s \<and> (cs = [] \<or> cs = [Discover t]))
     \<or> (\<exists>a. s' = s\<lparr>address := Some a\<rparr> \<and> cs = [Discover t])
     \<or> (\<exists>a r2 cs2. bleak \<and> \<not> connected s
          \<and> connect_and_resolve env (BleakClient a) (s\<lparr>address := Some a\<rparr>) = (r2, s', cs2)
          \<and> (cs = Discover t # cs2 \<or> cs = Discover t # cs2 @ [ClientDisconnect a]))"
  using assms
  by (auto simp: scan_and_connect_def Let_def try_disconnect_call
      split: if_splits sum.splits option.splits prod.splits)

lemma scan_and_connect_no_write:
  "filter is_write (snd (snd (scan_and_connect bleak env nm t s))) = []"
proof -
  obtain r s' cs where e: "scan_and_connect bleak env nm t s = (r, s', cs)"
    by (cases "scan_and_connect bleak env nm t s") auto
  from scan_and_connect_cases [OF e] consider
      (early) "s' = s" "cs = [] \<or> cs = [Discover t]"
    | (ctor) a where "s' = s\<lparr>address := Some a\<rparr>" "cs = [Discover t]"
    | (body) a r2 cs2 where "\<not> connected s"
        "connect_and_resolve env (BleakClient a) (s\<lparr>address := Some a\<rparr>) = (r2, s', cs2)"
        "cs = Discover t # cs2 \<or> cs = Discover t # cs2 @ [ClientDisconnect a]"
    by blast
  then have "filter is_write cs = []"
  proof cases
    case early
    then show ?thesis by (auto simp: is_write_def)
  next
    case ctor
    then show ?thesis by (auto simp: is_write_def)
  next
    case body
    from connect_and_resolve_no_write [of env "BleakClient a" "s\<lparr>address := Some a\<rparr>"] body(2)
    have "filter is_write cs2 = []" by simp
    with body(3) show ?thesis by (auto simp: is_write_def)
  qed
  with e show ?thesis by simp
qed

lemma scan_and_connect_sleeps:
  "length (filter is_sleep (snd (snd (scan_and_connect bleak env nm t s)))) \<le> 10"
proof -
  obtain r s' cs where e: "scan_and_connect bleak env nm t s = (r, s', cs)"
    by (cases "scan_and_connect bleak env nm t s") auto
  from scan_and_connect_cases [OF e] consider
      (early) "s' = s" "cs = [] \<or> cs = [Discover t]"
    | (ctor) a where "s' = s\<lparr>address := Some a\<rparr>" "cs = [Discover t]"
    | (body) a r2 cs2 where "\<not> connected s"
        "connect_and_resolve env (BleakClient a) (s\<lparr>address := Some a\<rparr>) = (r2, s', cs2)"
        "cs = Discover t # cs2 \<or> cs = Discover t # cs2 @ [ClientDisconnect a]"
    by blast
  then have "length (filter is_sleep cs) \<le> 10"
  proof cases
    case early
    then show ?thesis by (auto simp: is_sleep_def)
  next
    case ctor
    then show ?thesis by (auto simp: is_sleep_def)
  next
    case body
    from connect_and_resolve_sleeps [of env "BleakClient a" "s\<lparr>address := Some a\<rparr>"] body(2)
    have "length (filter is_sleep cs2) \<le> 10" by simp
    with body(3) show ?thesis by (auto simp: is_sleep_def)
  qed
  with e show ?thesis by simp
qed

lemma scan_and_connect_link_complete:
  assumes "link_complete s"
  shows "link_complete (fst (snd (scan_and_connect bleak env nm t s)))"
proof -
  obtain r s' cs where e: "scan_and_connect bleak env nm t s = (r, s', cs)"
    by (cases "scan_and_connect bleak env nm t s") auto
  from scan_and_connect_cases [OF e] consider
      (early) "s' = s" "cs = [] \<or> cs = [Discover t]"
    | (ctor) a where "s' = s\<lparr>address := Some a\<rparr>" "cs = [Discover t]"
    | (body) a r2 cs2 where "\<not> connected s"
        "connect_and_resolve env (BleakClient a) (s\<lparr>address := Some a\<rparr>) = (r2, s', cs2)"
        "cs = Discover t # cs2 \<or> cs = Discover t # cs2 @ [ClientDisconnect a]"
    by blast
  then have "link_complete s'"
  proof cases
    case early
    then show ?thesis using assms by (auto simp: link_complete_def)
  next
    case ctor
    then show ?thesis using assms by (auto simp: link_complete_def)
  next
    case body
    from body(1) have "\<not> connected (s\<lparr>address := Some a\<rparr>)" by simp
    from connect_and_resolve_link_complete [OF this, of env "BleakClient a"] body(2)
    show ?thesis by simp
  qed
  with e show ?thesis by simp
qed

lemma scan_and_connect_connected_after:
  "connected (fst (snd (scan_and_connect bleak env nm t s))) \<Longrightarrow> \<not> connected s \<Longrightarrow> bleak"
  by (auto simp: scan_and_connect_def split: if_splits)


subsection \<open>The concrete radio stacks\<close>

lemma connect_failed_backend: "connect_failed env (BackendError m) = BackendError m"
  by (simp add: connect_failed_def)

lemma scan_and_connect_last_print:
  "bleak \<Longrightarrow> \<not> connected s \<Longrightarrow> bleak_discover env t = Inr devices \<Longrightarrow>
   find_target env nm devices = Some d \<Longrightarrow> bleak_client env (d_address d) = None \<Longrightarrow>
   stderr_print env (''DEBUG: scan_and_connect -> connecting to '' @ d_address d) = None \<Longrightarrow>
   client_connect env (d_address d) = None \<Longrightarrow>
   stderr_print env ''DEBUG: connected'' = None \<Longrightarrow>
   client_services env 0 = Inr sv0 \<Longrightarrow>
   poll_services (client_services env) sv0 0 = (Inr sv, k) \<Longrightarrow>
   stderr_print env
     (if truthy_services sv then ''DEBUG: services present after connect''
      else ''DEBUG: services not populated, will proceed with known UUID'') = None \<Longrightarrow>
   stderr_print env (''DEBUG: using char '' @ resolve_char_uuid env sv) = Some e \<Longrightarrow>
   scan_and_connect bleak env nm t s =
     (Inl e,
      s\<lparr>address := Some (d_address d), client := Some (BleakClient (d_address d)),
        char_uuid := Some (resolve_char_uuid env sv)\<rparr>,
      [Discover t, ClientConnect (d_address d)] @ replicate k (Sleep (1 / 10))
        @ [ClientDisconnect (d_address d)])"
  by (simp add: scan_and_connect_def connect_and_resolve_def finalize_def Let_def
      try_disconnect_call)

lemma find_target_robot: "find_target env DEVICE_NAME [other_device, robot, robot2] = Some robot"
  by (simp add: device_defs lower_defs DEVICE_NAME_def)

lemma find_target_none: "find_target env DEVICE_NAME [other_device, unnamed_device] = None"
  by (simp add: device_defs lower_defs DEVICE_NAME_def)

lemma find_target_blank: "find_target env [] [blank_device, blank_device2] = None"
  by (simp add: device_defs)

lemma unlinked: "\<not> connected BLEController_init"
  by (simp add: BLEController_init_def)

lemma poll_quiet:
  "poll_services (\<lambda>n. Inr None) None 0 = (Inr None, 10)"
  using poll_services_never [of "\<lambda>n. Inr None" None 0] by simp

lemma scan_quiet:
  "scan_and_connect True quiet_stack DEVICE_NAME 5 BLEController_init =
     (Inr True, linked, [Discover 5, ClientConnect ''AA:BB''] @ replicate 10 (Sleep (1 / 10)))"
proof -
  have p: "poll_services (client_services quiet_stack) None 0 = (Inr None, 10)"
    using poll_quiet by (simp add: quiet_stack_def)
  have "scan_and_connect True quiet_stack DEVICE_NAME 5 BLEController_init =
     (Inr True,
      BLEController_init\<lparr>address := Some (d_address robot), client := Some (BleakClient (d_address robot)),
        char_uuid := Some (resolve_char_uuid quiet_stack None), connected := True\<rparr>,
      [Discover 5, ClientConnect (d_address robot)] @ replicate 10 (Sleep (1 / 10)))"
    by (rule scan_and_connect_success [OF TrueI unlinked _ find_target_robot _ _ _ _ p])
       (simp_all add: quiet_stack_def)
  then show ?thesis
    by (simp add: resolve_None robot_def BLEController_init_def linked_def)
qed

lemma scan_collection:
  "scan_and_connect True collection_stack DEVICE_NAME 5 BLEController_init =
     (Inr True, linked, [Discover 5, ClientConnect ''AA:BB''])"
proof -
  have p: "poll_services (client_services collection_stack) (Some (Collection [])) 0
             = (Inr (Some (Collection [])), 0)"
    by (simp add: poll_services_done)
  have "scan_and_connect True collection_stack DEVICE_NAME 5 BLEController_init =
     (Inr True,
      BLEController_init\<lparr>address := Some (d_address robot), client := Some (BleakClient (d_address robot)),
        char_uuid := Some (resolve_char_uuid collection_stack (Some (Collection []))), connected := True\<rparr>,
      [Discover 5, ClientConnect (d_address robot)] @ replicate 0 (Sleep (1 / 10)))"
    by (rule scan_and_connect_success [OF TrueI unlinked _ find_target_robot _ _ _ _ p])
       (simp_all add: collection_stack_def quiet_stack_def)
  then show ?thesis
    by (simp add: resolve_no_service robot_def BLEController_init_def linked_def)
qed




lemma scan_refusing:
  "scan_and_connect True refusing_stack DEVICE_NAME 5 BLEController_init =
     (Inl (BackendError ''timeout''), BLEController_init\<lparr>address := Some ''AA:BB''\<rparr>,
      [Discover 5, ClientConnect ''AA:BB'', ClientDisconnect ''AA:BB''])"
proof -
  have "scan_and_connect True refusing_stack DEVICE_NAME 5 BLEController_init =
     (Inl (BackendError ''timeout''), BLEController_init\<lparr>address := Some (d_address robot)\<rparr>,
      [Discover 5, ClientConnect (d_address robot), ClientDisconnect (d_address robot)])"
    by (rule scan_and_connect_refused
          [OF TrueI unlinked _ find_target_robot _ _ _ connect_failed_backend])
       (simp_all add: refusing_stack_def quiet_stack_def)
  then show ?thesis by (simp add: robot_def)
qed

lemma scan_empty:
  "scan_and_connect True empty_stack DEVICE_NAME 5 BLEController_init =
     (Inr False, BLEController_init, [Discover 5])"
  by (rule scan_and_connect_not_found [OF TrueI unlinked _ find_target_none])
     (simp_all add: empty_stack_def quiet_stack_def)

lemma scan_blank_name:
  "scan_and_connect True blank_name_stack [] 5 BLEController_init =
     (Inr False, BLEController_init, [Discover 5])"
  by (rule scan_and_connect_not_found [OF TrueI unlinked _ find_target_blank])
     (simp_all add: blank_name_stack_def quiet_stack_def)

text \<open>The print of line 119 raises: the client stays in \<^verbatim>\<open>self.client\<close>.\<close>

lemma scan_broken_pipe:
  "scan_and_connect True broken_pipe_stack DEVICE_NAME 5 BLEController_init =
     (Inl (IOError ''[Errno 32] Broken pipe''), half_open,
      [Discover 5, ClientConnect ''AA:BB''] @ replicate 10 (Sleep (1 / 10))
        @ [ClientDisconnect ''AA:BB''])"
proof -
  have p: "poll_services (client_services broken_pipe_stack) None 0 = (Inr None, 10)"
    using poll_quiet by (simp add: broken_pipe_stack_def quiet_stack_def)
  have "scan_and_connect True broken_pipe_stack DEVICE_NAME 5 BLEController_init =
     (Inl (IOError ''[Errno 32] Broken pipe''),
      BLEController_init\<lparr>address := Some (d_address robot), client := Some (BleakClient (d_address robot)),
        char_uuid := Some (resolve_char_uuid broken_pipe_stack None)\<rparr>,
      [Discover 5, ClientConnect (d_address robot)] @ replicate 10 (Sleep (1 / 10))
        @ [ClientDisconnect (d_address robot)])"
    by (rule scan_and_connect_last_print [OF TrueI unlinked _ find_target_robot _ _ _ _ _ p])
       (simp_all add: resolve_None broken_pipe_stack_def quiet_stack_def COMMAND_CHAR_UUID_def)
  then show ?thesis
    by (simp add: resolve_None robot_def BLEController_init_def half_open_def)
qed






subsection \<open>C1: resolution of the characteristic\<close>




subsection \<open>C5: the invariant of the controller\<close>

lemma invariant_init: "invariant BLEController_init"
  by (simp add: invariant_def BLEController_init_def)

lemma invariant_disconnect: "invariant (fst (snd (disconnect env s)))"
  by (simp add: disconnect_def invariant_def)

lemma send_state: "fst (snd (send env payload rr s)) = s"
  by (simp add: send_def Let_def split: option.splits)

lemma send_guard_connected: "invariant s \<Longrightarrow> send_guard s = connected s"
  by (auto simp: invariant_def send_guard_def)

text \<open>
  \<^verbatim>\<open>scan_and_connect\<close> keeps the invariant in every branch but one: the print of line
  119 must return.
\<close>

lemma finalize_invariant:
  assumes "invariant s" and "\<not> connected s"
    and "\<forall>u. stderr_print env (''DEBUG: using char '' @ u) = None"
  shows "invariant (snd (finalize env cl sv s))"
  using assms
  by (auto simp: finalize_def Let_def invariant_def resolve_char_uuid_nonempty
      split: option.splits)

lemma invariant_scan_and_connect:
  assumes "invariant s" and "\<forall>u. stderr_print env (''DEBUG: using char '' @ u) = None"
  shows "invariant (fst (snd (scan_and_connect bleak env nm t s)))"
proof -
  obtain r s' cs where e: "scan_and_connect bleak env nm t s = (r, s', cs)"
    by (cases "scan_and_connect bleak env nm t s") auto
  from scan_and_connect_cases [OF e] consider
      (early) "s' = s"
    | (ctor) a where "s' = s\<lparr>address := Some a\<rparr>"
    | (body) a r2 cs2 where "\<not> connected s"
        "connect_and_resolve env (BleakClient a) (s\<lparr>address := Some a\<rparr>) = (r2, s', cs2)"
    by blast
  then have "invariant s'"
  proof cases
    case early
    with assms show ?thesis by simp
  next
    case ctor
    with assms show ?thesis by (simp add: invariant_def)
  next
    case body
    let ?s1 = "s\<lparr>address := Some a\<rparr>"
    from assms(1) body(1) have i: "invariant ?s1" and n: "\<not> connected ?s1"
      by (simp_all add: invariant_def)
    from connect_and_resolve_cases [of env "BleakClient a" ?s1] body(2)
    have "s' = ?s1 \<or> (\<exists>sv. s' = snd (finalize env (BleakClient a) sv ?s1))"
      by auto
    with i finalize_invariant [OF i n assms(2)] show ?thesis by auto
  qed
  with e show ?thesis by simp
qed

text \<open>
  C5. The invariant is stated for every branch of every operation. After the print of
  line 119 has raised, \<^verbatim>\<open>self.client\<close> and \<^verbatim>\<open>self.char_uuid\<close> are set and
  \<^verbatim>\<open>self.connected\<close> is not: the handler of line 122 disconnects the client and resets
  no field, so a client is held in a state that is not connected.
\<close>

theorem print_failure_leaves_client:
  "invariant BLEController_init
   \<and> scan_and_connect True broken_pipe_stack DEVICE_NAME 5 BLEController_init =
       (Inl (IOError ''[Errno 32] Broken pipe''),
        \<lparr>client = Some (BleakClient ''AA:BB''), char_uuid = Some COMMAND_CHAR_UUID,
         address = Some ''AA:BB'', connected = False\<rparr>,
        [Discover 5, ClientConnect ''AA:BB'', Sleep (1 / 10), Sleep (1 / 10), Sleep (1 / 10),
         Sleep (1 / 10), Sleep (1 / 10), Sleep (1 / 10), Sleep (1 / 10), Sleep (1 / 10),
         Sleep (1 / 10), Sleep (1 / 10), ClientDisconnect ''AA:BB''])
   \<and> \<not> invariant (fst (snd (scan_and_connect True broken_pipe_stack DEVICE_NAME 5
                               BLEController_init)))"
  by (simp add: invariant_init scan_broken_pipe)
     (simp add: half_open_def invariant_def numeral_eq_Suc)

subsection \<open>The states the controller can be in\<close>

lemma link_complete_init: "link_complete BLEController_init"
  by (simp add: link_complete_def BLEController_init_def)

lemma reachable_link_complete: "reachable bleak s \<Longrightarrow> link_complete s"
proof (induction rule: reachable.induct)
  case reach_init
  show ?case by (rule link_complete_init)
next
  case (reach_connect s env nm timeout)
  from reach_connect.IH show ?case by (rule scan_and_connect_link_complete)
next
  case (reach_disconnect s env)
  show ?case by (simp add: disconnect_def link_complete_def)
next
  case (reach_send s env payload rr)
  then show ?case by (simp add: send_state)
qed

lemma reachable_connected_bleak: "reachable bleak s \<Longrightarrow> connected s \<Longrightarrow> bleak"
proof (induction rule: reachable.induct)
  case reach_init
  then show ?case by (simp add: BLEController_init_def)
next
  case (reach_connect s env nm timeout)
  then show ?case
    by (cases "connected s") (auto dest: scan_and_connect_connected_after)
next
  case (reach_disconnect s env)
  then show ?case by (simp add: disconnect_def)
next
  case (reach_send s env payload rr)
  then show ?case by (simp add: send_state)
qed

lemma reachable_linked: "reachable True linked"
  using reach_connect [OF reach_init, of True quiet_stack DEVICE_NAME 5]
  by (simp add: scan_quiet)

lemma connected_linked: "connected linked"
  by (simp add: linked_def)

subsection \<open>C3: \<^verbatim>\<open>disconnect\<close>\<close>

lemma disconnect_linked:
  "disconnect quiet_stack linked =
     (Inr (), \<lparr>client = None, char_uuid = None, address = Some ''AA:BB'', connected = False\<rparr>,
      [ClientDisconnect ''AA:BB''])"
  by (simp add: disconnect_def try_disconnect_def linked_def quiet_stack_def)

text \<open>
  C3. From every state, \<^verbatim>\<open>disconnect\<close> returns without an error whatever the teardown
  raises; it calls \<^verbatim>\<open>client.disconnect()\<close> when a client is held and \<open>connected\<close> is set;
  it clears \<open>client\<close> and \<open>char_uuid\<close>, resets \<open>connected\<close> and leaves \<open>address\<close> as it
  was; a second \<^verbatim>\<open>disconnect\<close> changes nothing and makes no call.
\<close>

theorem disconnect_resets:
  "disconnect env s =
     (Inr (), s\<lparr>client := None, char_uuid := None, connected := False\<rparr>,
      (case client s of
         None \<Rightarrow> []
       | Some cl \<Rightarrow> if connected s then [ClientDisconnect (client_address cl)] else []))
   \<and> client (fst (snd (disconnect env s))) = None
   \<and> char_uuid (fst (snd (disconnect env s))) = None
   \<and> connected (fst (snd (disconnect env s))) = False
   \<and> address (fst (snd (disconnect env s))) = address s
   \<and> disconnect env' (fst (snd (disconnect env s))) = (Inr (), fst (snd (disconnect env s)), [])"
  by (simp add: disconnect_def try_disconnect_def split: option.splits)

text \<open>
  The stored address is not cleared: after a connect to \<^verbatim>\<open>AA:BB\<close> and a disconnect
  whose teardown fails, the controller still holds the address.
\<close>

theorem disconnect_keeps_address:
  "fst (snd (scan_and_connect True quiet_stack DEVICE_NAME 5 BLEController_init)) = linked
   \<and> client_disconnect quiet_stack ''AA:BB'' = Some (BackendError ''disconnect failed'')
   \<and> disconnect quiet_stack linked =
       (Inr (), \<lparr>client = None, char_uuid = None, address = Some ''AA:BB'', connected = False\<rparr>,
        [ClientDisconnect ''AA:BB''])
   \<and> address (fst (snd (disconnect quiet_stack linked))) \<noteq> None"
  by (simp add: scan_quiet disconnect_linked) (simp add: quiet_stack_def)

subsection \<open>C6: connecting twice\<close>

text \<open>
  C6. In every state of the controller with \<open>connected\<close> set, \<^verbatim>\<open>scan_and_connect\<close>
  returns \<^verbatim>\<open>True\<close> at once: no discovery, no call on the radio stack, the state
  unchanged.
\<close>

theorem connect_idempotent:
  assumes "reachable bleak s" and "connected s"
  shows "scan_and_connect bleak env nm t s = (Inr True, s, [])"
proof -
  from assms have bleak by (rule reachable_connected_bleak)
  then show ?thesis using assms(2) by (rule scan_and_connect_connected)
qed

theorem connect_idempotent_witness:
  "reachable True linked \<and> connected linked
   \<and> scan_and_connect True refusing_stack DEVICE_NAME 5 linked = (Inr True, linked, [])"
  using connect_idempotent [OF reachable_linked connected_linked, of refusing_stack DEVICE_NAME 5]
  by (simp add: reachable_linked connected_linked)

subsection \<open>C7: no device of the name\<close>

lemma find_target_no_match:
  "\<forall>d\<in>set devices. \<forall>n. d_name d = Some n \<and> n \<noteq> [] \<longrightarrow> \<not> ci_equal env n nm \<Longrightarrow>
   find_target env nm devices = None"
  by (induction devices) (auto simp: ci_equal_def split: option.splits)

lemma find_target_first_match:
  "\<forall>p\<in>set pre. \<forall>m. d_name p = Some m \<and> m \<noteq> [] \<longrightarrow> \<not> ci_equal env m nm \<Longrightarrow>
   d_name d = Some n \<Longrightarrow> n \<noteq> [] \<Longrightarrow> ci_equal env n nm \<Longrightarrow>
   find_target env nm (pre @ d # post) = Some d"
  by (induction pre) (auto simp: ci_equal_def split: option.splits)

lemma finalize_address: "address (snd (finalize env cl sv s)) = address s"
  using finalize_cases [of env cl sv s] by auto

lemma connect_and_resolve_address:
  "address (fst (snd (connect_and_resolve env cl s))) = address s"
  using connect_and_resolve_cases [of env cl s] finalize_address [of env cl _ s]
  by auto

lemma connect_and_resolve_opens:
  assumes "stderr_print env (''DEBUG: scan_and_connect -> connecting to '' @ client_address cl) = None"
  shows "take 1 (snd (snd (connect_and_resolve env cl s))) = [ClientConnect (client_address cl)]"
  using assms
  by (simp add: connect_and_resolve_def Let_def split: option.splits sum.splits prod.splits)

lemma scan_and_connect_target:
  assumes "bleak" and "\<not> connected s" and "bleak_discover env t = Inr devices"
    and "find_target env nm devices = Some d"
  shows "address (fst (snd (scan_and_connect bleak env nm t s))) = Some (d_address d)
     \<and> (bleak_client env (d_address d) = None
          \<and> stderr_print env (''DEBUG: scan_and_connect -> connecting to '' @ d_address d) = None
        \<longrightarrow> take 2 (snd (snd (scan_and_connect bleak env nm t s)))
              = [Discover t, ClientConnect (d_address d)])"
proof -
  let ?a = "d_address d"
  let ?s1 = "s\<lparr>address := Some ?a\<rparr>"
  obtain r s' cs where c: "connect_and_resolve env (BleakClient ?a) ?s1 = (r, s', cs)"
    by (cases "connect_and_resolve env (BleakClient ?a) ?s1") auto
  from connect_and_resolve_address [of env "BleakClient ?a" ?s1] c
  have a: "address s' = Some ?a" by simp
  have o: "take 1 cs = [ClientConnect ?a]"
    if "stderr_print env (''DEBUG: scan_and_connect -> connecting to '' @ ?a) = None"
    using connect_and_resolve_opens [of env "BleakClient ?a" ?s1] that c by simp
  have t2: "take 2 (Discover t # cs @ xs) = [Discover t, ClientConnect ?a]"
    if "take 1 cs = [ClientConnect ?a]" for xs
    using that by (cases cs) simp_all
  from t2 [of "[]"] have t2': "take 2 (Discover t # cs) = [Discover t, ClientConnect ?a]"
    if "take 1 cs = [ClientConnect ?a]"
    using that by simp
  show ?thesis
    using scan_and_connect_found [OF assms] c a o t2 t2'
    by (cases "bleak_client env ?a"; cases r) auto
qed

text \<open>
  C7. When discovery returns no device whose name is the target name without regard to
  case, \<^verbatim>\<open>scan_and_connect\<close> returns \<^verbatim>\<open>False\<close>, has only called discovery, and leaves
  the controller as it was; \<^verbatim>\<open>_connect_and_update\<close> then shows the not-found status.
  A device matches when its name is not empty and is the target name without regard to
  case; the first device that matches is the one the connection is opened to.
\<close>

theorem connect_first_named_match:
  assumes "bleak" and "\<not> connected s" and "bleak_discover env t = Inr devices"
  shows "((\<forall>d\<in>set devices. \<forall>n. d_name d = Some n \<longrightarrow> \<not> ci_equal env n nm) \<longrightarrow>
            scan_and_connect bleak env nm t s = (Inr False, s, [Discover t])
            \<and> filter is_open (snd (snd (scan_and_connect bleak env nm t s))) = [])
     \<and> ((\<forall>d\<in>set devices. \<forall>n. d_name d = Some n \<and> n \<noteq> [] \<longrightarrow> \<not> ci_equal env n nm) \<longrightarrow>
            scan_and_connect bleak env nm t s = (Inr False, s, [Discover t]))
     \<and> (\<forall>pre d post n.
           devices = pre @ d # post
           \<and> (\<forall>p\<in>set pre. \<forall>m. d_name p = Some m \<and> m \<noteq> [] \<longrightarrow> \<not> ci_equal env m nm)
           \<and> d_name d = Some n \<and> n \<noteq> [] \<and> ci_equal env n nm \<longrightarrow>
           address (fst (snd (scan_and_connect bleak env nm t s))) = Some (d_address d)
           \<and> (bleak_client env (d_address d) = None
                \<and> stderr_print env
                     (''DEBUG: scan_and_connect -> connecting to '' @ d_address d) = None \<longrightarrow>
              take 2 (snd (snd (scan_and_connect bleak env nm t s)))
                = [Discover t, ClientConnect (d_address d)]))
     \<and> ((\<forall>d\<in>set devices. \<forall>n. d_name d = Some n \<longrightarrow> \<not> ci_equal env n DEVICE_NAME)
          \<and> nm = DEVICE_NAME \<and> t = 5 \<and> ble app = s \<longrightarrow>
          connect_and_update bleak env app =
            (Inr (),
             app\<lparr>status_var := ''Device '' @ quoted DEVICE_NAME @ '' not found or no writable char''\<rparr>,
             [Discover 5]))"
proof -
  have a': "scan_and_connect bleak env nm t s = (Inr False, s, [Discover t])"
    if "\<forall>d\<in>set devices. \<forall>n. d_name d = Some n \<and> n \<noteq> [] \<longrightarrow> \<not> ci_equal env n nm" for nm
    using assms find_target_no_match [OF that] by (rule scan_and_connect_not_found)
  have a: "scan_and_connect bleak env nm t s = (Inr False, s, [Discover t])"
    if "\<forall>d\<in>set devices. \<forall>n. d_name d = Some n \<longrightarrow> \<not> ci_equal env n nm" for nm
    using that by (intro a') blast
  have b: "address (fst (snd (scan_and_connect bleak env nm t s))) = Some (d_address d)
           \<and> (bleak_client env (d_address d) = None
                \<and> stderr_print env
                     (''DEBUG: scan_and_connect -> connecting to '' @ d_address d) = None \<longrightarrow>
              take 2 (snd (snd (scan_and_connect bleak env nm t s)))
                = [Discover t, ClientConnect (d_address d)])"
    if "devices = pre @ d # post"
      and "\<forall>p\<in>set pre. \<forall>m. d_name p = Some m \<and> m \<noteq> [] \<longrightarrow> \<not> ci_equal env m nm"
      and "d_name d = Some n" and "n \<noteq> []" and "ci_equal env n nm" for pre d post n
  proof -
    from that have "find_target env nm devices = Some d"
      by (simp add: find_target_first_match)
    with assms show ?thesis by (rule scan_and_connect_target)
  qed
  have c: "connect_and_update bleak env app =
            (Inr (),
             app\<lparr>status_var := ''Device '' @ quoted DEVICE_NAME @ '' not found or no writable char''\<rparr>,
             [Discover 5])"
    if "\<forall>d\<in>set devices. \<forall>n. d_name d = Some n \<longrightarrow> \<not> ci_equal env n DEVICE_NAME"
      and "nm = DEVICE_NAME" and "t = 5" and "ble app = s"
  proof -
    from a [OF that(1)] that
    have "scan_and_connect bleak env DEVICE_NAME 5 (ble app) = (Inr False, ble app, [Discover 5])"
      by simp
    then show ?thesis
      by (simp add: connect_and_update_def set_status_def)
  qed
  have 1: "(\<forall>d\<in>set devices. \<forall>n. d_name d = Some n \<longrightarrow> \<not> ci_equal env n nm) \<longrightarrow>
            scan_and_connect bleak env nm t s = (Inr False, s, [Discover t])
            \<and> filter is_open (snd (snd (scan_and_connect bleak env nm t s))) = []"
    using a [of nm] by (simp add: is_open_def)
  have 2: "(\<forall>d\<in>set devices. \<forall>n. d_name d = Some n \<and> n \<noteq> [] \<longrightarrow> \<not> ci_equal env n nm) \<longrightarrow>
            scan_and_connect bleak env nm t s = (Inr False, s, [Discover t])"
    using a' [of nm] by blast
  have 3: "\<forall>pre d post n.
           devices = pre @ d # post
           \<and> (\<forall>p\<in>set pre. \<forall>m. d_name p = Some m \<and> m \<noteq> [] \<longrightarrow> \<not> ci_equal env m nm)
           \<and> d_name d = Some n \<and> n \<noteq> [] \<and> ci_equal env n nm \<longrightarrow>
           address (fst (snd (scan_and_connect bleak env nm t s))) = Some (d_address d)
           \<and> (bleak_client env (d_address d) = None
                \<and> stderr_print env
                     (''DEBUG: scan_and_connect -> connecting to '' @ d_address d) = None \<longrightarrow>
              take 2 (snd (snd (scan_and_connect bleak env nm t s)))
                = [Discover t, ClientConnect (d_address d)])"
  proof (intro allI impI, elim conjE)
    fix pre d post n
    assume "devices = pre @ d # post"
      and "\<forall>p\<in>set pre. \<forall>m. d_name p = Some m \<and> m \<noteq> [] \<longrightarrow> \<not> ci_equal env m nm"
      and "d_name d = Some n" and "n \<noteq> []" and "ci_equal env n nm"
    then show "address (fst (snd (scan_and_connect bleak env nm t s))) = Some (d_address d)
           \<and> (bleak_client env (d_address d) = None
                \<and> stderr_print env
                     (''DEBUG: scan_and_connect -> connecting to '' @ d_address d) = None \<longrightarrow>
              take 2 (snd (snd (scan_and_connect bleak env nm t s)))
                = [Discover t, ClientConnect (d_address d)])"
      by (rule b)
  qed
  have 4: "(\<forall>d\<in>set devices. \<forall>n. d_name d = Some n \<longrightarrow> \<not> ci_equal env n DEVICE_NAME)
          \<and> nm = DEVICE_NAME \<and> t = 5 \<and> ble app = s \<longrightarrow>
          connect_and_update bleak env app =
            (Inr (),
             app\<lparr>status_var := ''Device '' @ quoted DEVICE_NAME @ '' not found or no writable char''\<rparr>,
             [Discover 5])"
  proof (intro impI, elim conjE)
    assume "\<forall>d\<in>set devices. \<forall>n. d_name d = Some n \<longrightarrow> \<not> ci_equal env n DEVICE_NAME"
      and "nm = DEVICE_NAME" and "t = 5" and "ble app = s"
    then show "connect_and_update bleak env app =
            (Inr (),
             app\<lparr>status_var := ''Device '' @ quoted DEVICE_NAME @ '' not found or no writable char''\<rparr>,
             [Discover 5])"
      by (rule c)
  qed
  from 1 2 3 4 show ?thesis
    by (intro conjI)
qed

lemma empty_stack_no_match:
  "\<forall>d\<in>set [other_device, unnamed_device]. \<forall>n. d_name d = Some n \<longrightarrow> \<not> ci_equal env n DEVICE_NAME"
  by (simp add: device_defs ci_equal_def lower_defs DEVICE_NAME_def)

lemma quiet_stack_first_match:
  "(\<forall>p\<in>set [other_device]. \<forall>m. d_name p = Some m \<and> m \<noteq> [] \<longrightarrow> \<not> ci_equal env m DEVICE_NAME)
   \<and> d_name robot = Some ''ArduBotR4'' \<and> ''ArduBotR4'' \<noteq> [] \<and> ci_equal env ''ArduBotR4'' DEVICE_NAME
   \<and> d_name robot2 = Some ''ARDUBOTR4'' \<and> ci_equal env ''ARDUBOTR4'' DEVICE_NAME"
  by (simp add: device_defs ci_equal_def lower_defs DEVICE_NAME_def)

theorem connect_first_named_match_witness:
  "scan_and_connect True empty_stack DEVICE_NAME 5 BLEController_init
     = (Inr False, BLEController_init, [Discover 5])
   \<and> connect_and_update True empty_stack App_init =
       (Inr (), App_init\<lparr>status_var := ''Device '' @ quoted DEVICE_NAME @ '' not found or no writable char''\<rparr>,
        [Discover 5])
   \<and> address (fst (snd (scan_and_connect True quiet_stack DEVICE_NAME 5 BLEController_init)))
       = Some ''AA:BB''
   \<and> take 2 (snd (snd (scan_and_connect True quiet_stack DEVICE_NAME 5 BLEController_init)))
       = [Discover 5, ClientConnect ''AA:BB'']"
proof -
  have e: "bleak_discover empty_stack 5 = Inr [other_device, unnamed_device]"
    by (simp add: empty_stack_def quiet_stack_def)
  have q: "bleak_discover quiet_stack 5 = Inr [other_device, robot, robot2]"
    by (simp add: quiet_stack_def)
  have i: "ble App_init = BLEController_init"
    by (simp add: App_init_def)
  have l: "[other_device, robot, robot2] = [other_device] @ robot # [robot2]"
    by simp
  have o: "bleak_client quiet_stack (d_address robot) = None
      \<and> stderr_print quiet_stack (''DEBUG: scan_and_connect -> connecting to '' @ d_address robot) = None"
    by (simp add: quiet_stack_def)
  from connect_first_named_match [OF TrueI unlinked e, of DEVICE_NAME App_init]
    empty_stack_no_match [of empty_stack] i
  have first: "scan_and_connect True empty_stack DEVICE_NAME 5 BLEController_init
     = (Inr False, BLEController_init, [Discover 5])
   \<and> connect_and_update True empty_stack App_init =
       (Inr (), App_init\<lparr>status_var := ''Device '' @ quoted DEVICE_NAME @ '' not found or no writable char''\<rparr>,
        [Discover 5])"
    by blast
  from connect_first_named_match [OF TrueI unlinked q, of DEVICE_NAME App_init, THEN conjunct2,
      THEN conjunct2, THEN conjunct1, rule_format, of "[other_device]" robot "[robot2]" "''ArduBotR4''"]
    quiet_stack_first_match [of quiet_stack] l o
  have "address (fst (snd (scan_and_connect True quiet_stack DEVICE_NAME 5 BLEController_init)))
       = Some (d_address robot)
   \<and> take 2 (snd (snd (scan_and_connect True quiet_stack DEVICE_NAME 5 BLEController_init)))
       = [Discover 5, ClientConnect (d_address robot)]"
    by blast
  with first show ?thesis
    by (simp add: robot_def)
qed

text \<open>
  A device whose name is empty matches no target name, not even the empty one: with two
  such devices in range and the empty target name, nothing is found and nothing opened.
\<close>

theorem blank_name_matches_nothing:
  "bleak_discover blank_name_stack 5 = Inr [blank_device, blank_device2]
   \<and> d_name blank_device = Some [] \<and> ci_equal blank_name_stack [] []
   \<and> d_name blank_device2 = Some []
   \<and> scan_and_connect True blank_name_stack [] 5 BLEController_init
       = (Inr False, BLEController_init, [Discover 5])"
  by (simp add: scan_blank_name ci_equal_def)
     (simp add: blank_name_stack_def quiet_stack_def device_defs)

subsection \<open>C8: the polling loop is bounded\<close>

lemma resolve_shows_no_service:
  "shows_no_service (Inr sv) \<Longrightarrow> resolve_char_uuid env sv = COMMAND_CHAR_UUID"
  by (cases sv) (simp_all add: shows_no_service_def resolve_None resolve_no_service)

lemma shows_no_service_first:
  "shows_no_service (rd (0::nat)) \<Longrightarrow> \<exists>sv0. rd 0 = Inr sv0 \<and> shows_no_service (Inr sv0)"
  by (cases "rd 0") (simp_all add: shows_no_service_def)

text \<open>
  C8. When the radio stack keeps reporting no services, the loop sleeps at most ten
  times 0.1 s, exactly ten times when the value it reads is false every time, and
  \<^verbatim>\<open>scan_and_connect\<close> finishes with the known identifier as the write target; whatever
  the radio stack reports, there are at most ten rounds.
\<close>

theorem polling_bounded:
  assumes "\<forall>n. shows_no_service (client_services env n)"
  shows "(\<exists>sv0 sv k. client_services env 0 = Inr sv0
            \<and> poll_services (client_services env) sv0 0 = (Inr sv, k) \<and> k \<le> 10
            \<and> resolve_char_uuid env sv = COMMAND_CHAR_UUID
            \<and> ((\<forall>n x. client_services env n = Inr x \<longrightarrow> \<not> truthy_services x) \<longrightarrow> k = 10)
            \<and> (bleak \<and> \<not> connected s \<and> bleak_discover env t = Inr devices
                 \<and> find_target env nm devices = Some d \<and> bleak_client env (d_address d) = None
                 \<and> client_connect env (d_address d) = None
                 \<and> (\<forall>m. stderr_print env m = None) \<longrightarrow>
                 scan_and_connect bleak env nm t s =
                   (Inr True,
                    s\<lparr>address := Some (d_address d), client := Some (BleakClient (d_address d)),
                      char_uuid := Some COMMAND_CHAR_UUID, connected := True\<rparr>,
                    [Discover t, ClientConnect (d_address d)] @ replicate k (Sleep (1 / 10)))))
     \<and> snd (poll_services rd sv' 0) \<le> 10
     \<and> length (filter is_sleep (snd (snd (scan_and_connect bleak' env' nm' t' s')))) \<le> 10"
proof -
  from assms shows_no_service_first [of "client_services env"] obtain sv0 where
    r0: "client_services env 0 = Inr sv0" and n0: "shows_no_service (Inr sv0)"
    by blast
  from poll_services_no_service [OF assms n0, of 0] obtain sv k where
    p: "poll_services (client_services env) sv0 0 = (Inr sv, k)"
    and n: "shows_no_service (Inr sv)" and k: "k \<le> 10"
    by auto
  from n have r: "resolve_char_uuid env sv = COMMAND_CHAR_UUID"
    by (rule resolve_shows_no_service)
  have ten: "k = 10" if f: "\<forall>n x. client_services env n = Inr x \<longrightarrow> \<not> truthy_services x"
  proof -
    from assms f have "\<forall>n. \<exists>x. client_services env n = Inr x \<and> \<not> truthy_services x"
      by (metis shows_no_service_def sum.case(1) sum.exhaust)
    moreover from f r0 have "\<not> truthy_services sv0" by blast
    ultimately have "\<exists>x. client_services env 10 = Inr x
        \<and> poll_services (client_services env) sv0 0 = (Inr x, 10)"
      by (intro poll_services_never) simp_all
    with p show ?thesis by auto
  qed
  have c: "scan_and_connect bleak env nm t s =
                   (Inr True,
                    s\<lparr>address := Some (d_address d), client := Some (BleakClient (d_address d)),
                      char_uuid := Some COMMAND_CHAR_UUID, connected := True\<rparr>,
                    [Discover t, ClientConnect (d_address d)] @ replicate k (Sleep (1 / 10)))"
    if "bleak" "\<not> connected s" "bleak_discover env t = Inr devices"
       "find_target env nm devices = Some d" "bleak_client env (d_address d) = None"
       "client_connect env (d_address d) = None" "\<forall>m. stderr_print env m = None"
    using scan_and_connect_success [OF that(1-5) that(7) that(6) r0 p] by (simp add: r)
  have b: "snd (poll_services rd sv' 0) \<le> 10"
    using poll_services_bound [of rd sv' 0] by simp
  have "client_services env 0 = Inr sv0
            \<and> poll_services (client_services env) sv0 0 = (Inr sv, k) \<and> k \<le> 10
            \<and> resolve_char_uuid env sv = COMMAND_CHAR_UUID
            \<and> ((\<forall>n x. client_services env n = Inr x \<longrightarrow> \<not> truthy_services x) \<longrightarrow> k = 10)
            \<and> (bleak \<and> \<not> connected s \<and> bleak_discover env t = Inr devices
                 \<and> find_target env nm devices = Some d \<and> bleak_client env (d_address d) = None
                 \<and> client_connect env (d_address d) = None
                 \<and> (\<forall>m. stderr_print env m = None) \<longrightarrow>
                 scan_and_connect bleak env nm t s =
                   (Inr True,
                    s\<lparr>address := Some (d_address d), client := Some (BleakClient (d_address d)),
                      char_uuid := Some COMMAND_CHAR_UUID, connected := True\<rparr>,
                    [Discover t, ClientConnect (d_address d)] @ replicate k (Sleep (1 / 10))))"
    using r0 p k r ten c by (intro conjI impI) (simp_all only:, blast+)
  then have "\<exists>sv0 sv k. client_services env 0 = Inr sv0
            \<and> poll_services (client_services env) sv0 0 = (Inr sv, k) \<and> k \<le> 10
            \<and> resolve_char_uuid env sv = COMMAND_CHAR_UUID
            \<and> ((\<forall>n x. client_services env n = Inr x \<longrightarrow> \<not> truthy_services x) \<longrightarrow> k = 10)
            \<and> (bleak \<and> \<not> connected s \<and> bleak_discover env t = Inr devices
                 \<and> find_target env nm devices = Some d \<and> bleak_client env (d_address d) = None
                 \<and> client_connect env (d_address d) = None
                 \<and> (\<forall>m. stderr_print env m = None) \<longrightarrow>
                 scan_and_connect bleak env nm t s =
                   (Inr True,
                    s\<lparr>address := Some (d_address d), client := Some (BleakClient (d_address d)),
                      char_uuid := Some COMMAND_CHAR_UUID, connected := True\<rparr>,
                    [Discover t, ClientConnect (d_address d)] @ replicate k (Sleep (1 / 10))))"
    by (intro exI)
  with b scan_and_connect_sleeps [of bleak' env' nm' t' s'] show ?thesis
    by (intro conjI)
qed

theorem polling_bounded_witness:
  "scan_and_connect True quiet_stack DEVICE_NAME 5 BLEController_init =
     (Inr True,
      \<lparr>client = Some (BleakClient ''AA:BB''), char_uuid = Some COMMAND_CHAR_UUID,
       address = Some ''AA:BB'', connected = True\<rparr>,
      [Discover 5, ClientConnect ''AA:BB'', Sleep (1 / 10), Sleep (1 / 10), Sleep (1 / 10),
       Sleep (1 / 10), Sleep (1 / 10), Sleep (1 / 10), Sleep (1 / 10), Sleep (1 / 10),
       Sleep (1 / 10), Sleep (1 / 10)])
   \<and> (\<exists>k\<le>10. scan_and_connect True collection_stack DEVICE_NAME 5 BLEController_init =
         (Inr True,
          \<lparr>client = Some (BleakClient ''AA:BB''), char_uuid = Some COMMAND_CHAR_UUID,
           address = Some ''AA:BB'', connected = True\<rparr>,
          [Discover 5, ClientConnect ''AA:BB''] @ replicate k (Sleep (1 / 10))))"
proof -
  have a: "\<forall>n. shows_no_service (client_services quiet_stack n)"
    by (simp add: quiet_stack_def shows_no_service_def)
  have f: "\<forall>n x. client_services quiet_stack n = Inr x \<longrightarrow> \<not> truthy_services x"
    by (auto simp: quiet_stack_def)
  have a': "\<forall>n. shows_no_service (client_services collection_stack n)"
    by (simp add: collection_stack_def quiet_stack_def shows_no_service_def)
  have h: "True \<and> \<not> connected BLEController_init
      \<and> bleak_discover env 5 = Inr [other_device, robot, robot2]
      \<and> find_target env DEVICE_NAME [other_device, robot, robot2] = Some robot
      \<and> bleak_client env (d_address robot) = None
      \<and> client_connect env (d_address robot) = None
      \<and> (\<forall>m. stderr_print env m = None)"
    if "env = quiet_stack \<or> env = collection_stack" for env
    using that find_target_robot [of env] unlinked
    by (auto simp: quiet_stack_def collection_stack_def)
  from polling_bounded [OF a, of True BLEController_init 5 "[other_device, robot, robot2]"
      DEVICE_NAME robot] h [of quiet_stack] f
  have q: "scan_and_connect True quiet_stack DEVICE_NAME 5 BLEController_init =
            (Inr True,
             BLEController_init\<lparr>address := Some (d_address robot), client := Some (BleakClient (d_address robot)),
               char_uuid := Some COMMAND_CHAR_UUID, connected := True\<rparr>,
             [Discover 5, ClientConnect (d_address robot)] @ replicate 10 (Sleep (1 / 10)))"
    by blast
  from polling_bounded [OF a', of True BLEController_init 5 "[other_device, robot, robot2]"
      DEVICE_NAME robot] h [of collection_stack]
  have c: "\<exists>k\<le>10. scan_and_connect True collection_stack DEVICE_NAME 5 BLEController_init =
            (Inr True,
             BLEController_init\<lparr>address := Some (d_address robot), client := Some (BleakClient (d_address robot)),
               char_uuid := Some COMMAND_CHAR_UUID, connected := True\<rparr>,
             [Discover 5, ClientConnect (d_address robot)] @ replicate k (Sleep (1 / 10)))"
    by blast
  from q c show ?thesis
    by (simp add: robot_def BLEController_init_def numeral_eq_Suc)
qed

subsection \<open>C4: sending while not connected\<close>

lemma App_init_unconnected: "\<not> connected (ble App_init)"
  by (simp add: App_init_def BLEController_init_def)

lemma scan_refusing_app:
  "scan_and_connect True refusing_stack DEVICE_NAME 5 (ble App_init) =
     (Inl (BackendError ''timeout''), BLEController_init\<lparr>address := Some ''AA:BB''\<rparr>,
      [Discover 5, ClientConnect ''AA:BB'', ClientDisconnect ''AA:BB''])"
  using scan_refusing by (simp add: App_init_def)

lemma scan_empty_app:
  "scan_and_connect True empty_stack DEVICE_NAME 5 (ble App_init) =
     (Inr False, BLEController_init, [Discover 5])"
  using scan_empty by (simp add: App_init_def)

text \<open>
  The error of a failed connection is not a not-connected error: when
  \<^verbatim>\<open>client.connect()\<close> times out, the send raises that timeout.
\<close>

theorem transport_error_is_reraised:
  "\<not> connected (ble App_init)
   \<and> send_command True refusing_stack ''forward'' App_init =
       (Inl (BackendError ''timeout''),
        \<lparr>ble = \<lparr>client = None, char_uuid = None, address = Some ''AA:BB'', connected = False\<rparr>,
         status_var = ''Connection error: timeout''\<rparr>,
        [Discover 5, ClientConnect ''AA:BB'', ClientDisconnect ''AA:BB''])
   \<and> \<not> not_connected_error (BackendError ''timeout'')"
proof -
  have "send_command True refusing_stack ''forward'' App_init =
       (Inl (BackendError ''timeout''),
        set_status (''Connection error: '' @ str_exn (BackendError ''timeout''))
          (App_init\<lparr>ble := BLEController_init\<lparr>address := Some ''AA:BB''\<rparr>\<rparr>),
        [Discover 5, ClientConnect ''AA:BB'', ClientDisconnect ''AA:BB''])"
    by (simp add: send_command_def scan_refusing_app App_init_unconnected)
  then show ?thesis
    by (simp add: App_init_unconnected not_connected_error_def)
       (simp add: App_init_def BLEController_init_def set_status_def)
qed

text \<open>
  C4. A send while \<open>connected\<close> is not set first runs \<^verbatim>\<open>scan_and_connect\<close> with
  \<^verbatim>\<open>DEVICE_NAME\<close> and the timeout 5.0. When that returns \<^verbatim>\<open>False\<close>, the send fails
  with \<^verbatim>\<open>RuntimeError("Device not connected")\<close>; when it raises, the send fails with
  the exception raised; in both cases nothing is written.
\<close>

theorem send_command_unconnected:
  assumes "\<not> connected (ble app)"
    and "scan_and_connect bleak env DEVICE_NAME 5 (ble app) = (r, s', cs)"
  shows "(r = Inr False \<longrightarrow>
            send_command bleak env payload app =
              (Inl (RuntimeError ''Device not connected''),
               app\<lparr>ble := s', status_var := ''Device '' @ quoted DEVICE_NAME @ '' not found''\<rparr>,
               cs)
            \<and> not_connected_error (RuntimeError ''Device not connected''))
     \<and> (\<forall>e. r = Inl e \<longrightarrow>
            send_command bleak env payload app =
              (Inl e, app\<lparr>ble := s', status_var := ''Connection error: '' @ str_exn e\<rparr>, cs))
     \<and> (r \<noteq> Inr True \<longrightarrow>
            filter is_write (snd (snd (send_command bleak env payload app))) = [])
     \<and> take (length cs) (snd (snd (send_command bleak env payload app))) = cs"
proof -
  have w: "filter is_write cs = []"
    using scan_and_connect_no_write [of bleak env DEVICE_NAME 5 "ble app"] assms(2) by simp
  show ?thesis
  proof (cases r)
    case (Inl e)
    with assms w show ?thesis
      by (simp add: send_command_def set_status_def)
  next
    case (Inr ok)
    show ?thesis
    proof (cases ok)
      case True
      with assms Inr show ?thesis
        by (simp add: send_command_def split: prod.splits)
    next
      case False
      with assms Inr w show ?thesis
        by (simp add: send_command_def set_status_def not_connected_error_def)
    qed
  qed
qed

theorem send_command_unconnected_witness:
  "send_command True empty_stack ''forward'' App_init =
     (Inl (RuntimeError ''Device not connected''),
      App_init\<lparr>status_var := ''Device '' @ quoted DEVICE_NAME @ '' not found''\<rparr>, [Discover 5])
   \<and> send_command True refusing_stack ''forward'' App_init =
     (Inl (BackendError ''timeout''),
      App_init\<lparr>ble := BLEController_init\<lparr>address := Some ''AA:BB''\<rparr>,
               status_var := ''Connection error: timeout''\<rparr>,
      [Discover 5, ClientConnect ''AA:BB'', ClientDisconnect ''AA:BB''])
   \<and> filter is_write (snd (snd (send_command True refusing_stack ''forward'' App_init))) = []"
proof -
  from send_command_unconnected [OF App_init_unconnected scan_empty_app, of "''forward''"]
  have "send_command True empty_stack ''forward'' App_init =
     (Inl (RuntimeError ''Device not connected''),
      App_init\<lparr>ble := BLEController_init,
               status_var := ''Device '' @ quoted DEVICE_NAME @ '' not found''\<rparr>, [Discover 5])"
    by blast
  then have a: "send_command True empty_stack ''forward'' App_init =
     (Inl (RuntimeError ''Device not connected''),
      App_init\<lparr>status_var := ''Device '' @ quoted DEVICE_NAME @ '' not found''\<rparr>, [Discover 5])"
    by (simp add: App_init_def)
  from send_command_unconnected [OF App_init_unconnected scan_refusing_app, of "''forward''"]
  have "send_command True refusing_stack ''forward'' App_init =
     (Inl (BackendError ''timeout''),
      App_init\<lparr>ble := BLEController_init\<lparr>address := Some ''AA:BB''\<rparr>,
               status_var := ''Connection error: '' @ str_exn (BackendError ''timeout'')\<rparr>,
      [Discover 5, ClientConnect ''AA:BB'', ClientDisconnect ''AA:BB''])
    \<and> filter is_write (snd (snd (send_command True refusing_stack ''forward'' App_init))) = []"
    by blast
  with a show ?thesis
    by (simp add: is_write_def)
qed

subsection \<open>C9: a button press while connected\<close>

lemma decode_commands:
  "decode_replace ''forward'' = ''forward''" "decode_replace ''back'' = ''back''"
  "decode_replace ''left'' = ''left''" "decode_replace ''right'' = ''right''"
  "decode_replace ''switch'' = ''switch''"
  by (simp_all add: decode_replace.simps byte_in_def)

lemma command_forward: "COMMANDS ''forward'' = Some ''forward''"
  by (simp add: COMMANDS_def COMMANDS_items_def)
lemma command_back: "COMMANDS ''back'' = Some ''back''"
  by (simp add: COMMANDS_def COMMANDS_items_def)
lemma command_left: "COMMANDS ''left'' = Some ''left''"
  by (simp add: COMMANDS_def COMMANDS_items_def)
lemma command_right: "COMMANDS ''right'' = Some ''right''"
  by (simp add: COMMANDS_def COMMANDS_items_def)
lemma command_switch: "COMMANDS ''switch'' = Some ''switch''"
  by (simp add: COMMANDS_def COMMANDS_items_def)

lemma COMMANDS_names:
  assumes "nm \<in> {''forward'', ''back'', ''left'', ''right'', ''switch''}"
  shows "COMMANDS nm = Some nm \<and> nm \<noteq> [] \<and> decode_replace nm = nm"
proof -
  from assms consider "nm = ''forward''" | "nm = ''back''" | "nm = ''left''" | "nm = ''right''"
    | "nm = ''switch''"
    by blast
  then show ?thesis
  proof cases
    case 1
    then show ?thesis using command_forward decode_commands(1) by simp
  next
    case 2
    then show ?thesis using command_back decode_commands(2) by simp
  next
    case 3
    then show ?thesis using command_left decode_commands(3) by simp
  next
    case 4
    then show ?thesis using command_right decode_commands(4) by simp
  next
    case 5
    then show ?thesis using command_switch decode_commands(5) by simp
  qed
qed

lemma send_connected:
  assumes "link_complete s" and "connected s"
  shows "\<exists>a u. client s = Some (BleakClient a) \<and> char_uuid s = Some u \<and> u \<noteq> []
     \<and> send env payload rr s =
         (case client_write_gatt_char env u payload rr of
            Some e \<Rightarrow> Inl e | None \<Rightarrow> Inr (),
          s, [WriteGattChar a u payload rr])"
proof -
  from assms obtain cl u where c: "client s = Some cl" and u: "char_uuid s = Some u" and n: "u \<noteq> []"
    by (cases "client s"; cases "char_uuid s") (auto simp: link_complete_def)
  obtain a where a: "cl = BleakClient a" by (cases cl)
  from c u n a assms(2) show ?thesis
    by (simp add: send_def Let_def split: option.splits)
qed

lemma send_and_report_connected:
  assumes "link_complete (ble app)" and "connected (ble app)"
  shows "\<exists>a u. client (ble app) = Some (BleakClient a) \<and> char_uuid (ble app) = Some u
     \<and> send_and_report env payload app =
         (case client_write_gatt_char env u payload True of
            Some e \<Rightarrow> (Inl e, app\<lparr>status_var := ''Send failed: '' @ str_exn e\<rparr>,
                        [WriteGattChar a u payload True])
          | None \<Rightarrow> (Inr (), app\<lparr>status_var := ''Sent: '' @ decode_replace payload\<rparr>,
                      [WriteGattChar a u payload True]))"
proof -
  from send_connected [OF assms, of env payload True] obtain a u where
    c: "client (ble app) = Some (BleakClient a)" and u: "char_uuid (ble app) = Some u"
    and s: "send env payload True (ble app) =
         (case client_write_gatt_char env u payload True of
            Some e \<Rightarrow> Inl e | None \<Rightarrow> Inr (),
          ble app, [WriteGattChar a u payload True])"
    by blast
  from s have "send_and_report env payload app =
         (case client_write_gatt_char env u payload True of
            Some e \<Rightarrow> (Inl e, app\<lparr>status_var := ''Send failed: '' @ str_exn e\<rparr>,
                        [WriteGattChar a u payload True])
          | None \<Rightarrow> (Inr (), app\<lparr>status_var := ''Sent: '' @ decode_replace payload\<rparr>,
                      [WriteGattChar a u payload True]))"
    by (simp add: send_and_report_def REQUIRE_RESPONSE_ON_WRITE_def set_status_def
        split: option.splits)
  with c u show ?thesis by blast
qed

text \<open>
  C9. For each of the five command names, a button press in a state of the controller
  with \<open>connected\<close> set makes exactly one call: a write of the bytes of the name to
  \<open>char_uuid\<close>, with \<^verbatim>\<open>response=True\<close>; when the write returns, the status is
  \<^verbatim>\<open>Sent:\<close> and the name.
\<close>

theorem button_sends_name:
  assumes "reachable bleak (ble app)" and "connected (ble app)"
    and "nm \<in> {''forward'', ''back'', ''left'', ''right'', ''switch''}"
  shows "\<exists>a u. client (ble app) = Some (BleakClient a) \<and> char_uuid (ble app) = Some u
       \<and> snd (on_button bleak env nm app) = [WriteGattChar a u nm True]
       \<and> (client_write_gatt_char env u nm True = None \<longrightarrow>
            fst (on_button bleak env nm app) = app\<lparr>status_var := ''Sent: '' @ nm\<rparr>)"
proof -
  from assms(1) have inv: "link_complete (ble app)" by (rule reachable_link_complete)
  from COMMANDS_names [OF assms(3)] have cmd: "COMMANDS nm = Some nm" and ne: "nm \<noteq> []"
    and dec: "decode_replace nm = nm"
    by simp_all
  from send_and_report_connected [OF inv assms(2), of env nm] obtain a u where
    c: "client (ble app) = Some (BleakClient a)" and u: "char_uuid (ble app) = Some u"
    and s: "send_and_report env nm app =
         (case client_write_gatt_char env u nm True of
            Some e \<Rightarrow> (Inl e, app\<lparr>status_var := ''Send failed: '' @ str_exn e\<rparr>,
                        [WriteGattChar a u nm True])
          | None \<Rightarrow> (Inr (), app\<lparr>status_var := ''Sent: '' @ decode_replace nm\<rparr>,
                      [WriteGattChar a u nm True]))"
    by blast
  from assms(2) have sc: "send_command bleak env nm app = send_and_report env nm app"
    by (simp add: send_command_def)
  have "snd (on_button bleak env nm app) = [WriteGattChar a u nm True]
       \<and> (client_write_gatt_char env u nm True = None \<longrightarrow>
            fst (on_button bleak env nm app) = app\<lparr>status_var := ''Sent: '' @ nm\<rparr>)"
    by (simp add: on_button_def cmd ne sc s dec Let_def split: option.splits)
  with c u show ?thesis
    by (intro exI [of _ a] exI [of _ u]) simp
qed

lemma reachable_linked_app: "reachable True (ble linked_app)"
  using reachable_linked by (simp add: linked_app_def)

lemma connected_linked_app: "connected (ble linked_app)"
  by (simp add: linked_app_def linked_def)

theorem button_sends_name_witness:
  "snd (on_button True quiet_stack ''forward'' linked_app)
     = [WriteGattChar ''AA:BB'' COMMAND_CHAR_UUID ''forward'' True]
   \<and> status_var (fst (on_button True quiet_stack ''forward'' linked_app)) = ''Sent: forward''"
proof -
  have m: "''forward'' \<in> {''forward'', ''back'', ''left'', ''right'', ''switch''}"
    by simp
  from button_sends_name [OF reachable_linked_app connected_linked_app m, of quiet_stack]
  obtain a u where c: "client (ble linked_app) = Some (BleakClient a)"
    and u: "char_uuid (ble linked_app) = Some u"
    and s: "snd (on_button True quiet_stack ''forward'' linked_app) = [WriteGattChar a u ''forward'' True]"
    and t: "client_write_gatt_char quiet_stack u ''forward'' True = None \<longrightarrow>
            fst (on_button True quiet_stack ''forward'' linked_app)
              = linked_app\<lparr>status_var := ''Sent: '' @ ''forward''\<rparr>"
    by (elim exE conjE)
  from c have a: "a = ''AA:BB''" by (simp add: linked_app_def linked_def)
  from u have u': "u = COMMAND_CHAR_UUID" by (simp add: linked_app_def linked_def)
  have "client_write_gatt_char quiet_stack u ''forward'' True = None"
    by (simp add: quiet_stack_def)
  with t s a u' show ?thesis by simp
qed

subsection \<open>C10: a failed write\<close>

text \<open>
  C10. In a state of the controller with \<open>connected\<close> set, a write that raises leaves
  the controller as it was; the send raises the same exception, and the next send makes
  one call, the write: no discovery and no connect.
\<close>

theorem failed_write_keeps_connection:
  assumes "reachable bleak (ble app)" and "connected (ble app)"
    and "char_uuid (ble app) = Some u"
    and "client_write_gatt_char env u payload REQUIRE_RESPONSE_ON_WRITE = Some e"
  shows "\<exists>a. client (ble app) = Some (BleakClient a)
       \<and> send env payload REQUIRE_RESPONSE_ON_WRITE (ble app)
           = (Inl e, ble app, [WriteGattChar a u payload True])
       \<and> send_command bleak env payload app
           = (Inl e, app\<lparr>status_var := ''Send failed: '' @ str_exn e\<rparr>,
              [WriteGattChar a u payload True])
       \<and> ble (fst (snd (send_command bleak env payload app))) = ble app
       \<and> snd (snd (send_command bleak env' payload'
                      (fst (snd (send_command bleak env payload app)))))
           = [WriteGattChar a u payload' True]"
proof -
  from assms(1) have inv: "link_complete (ble app)" by (rule reachable_link_complete)
  from assms(4) have w: "client_write_gatt_char env u payload True = Some e"
    by (simp add: REQUIRE_RESPONSE_ON_WRITE_def)
  from send_connected [OF inv assms(2), of env payload True] assms(3) w obtain a where
    c: "client (ble app) = Some (BleakClient a)"
    and s: "send env payload True (ble app) = (Inl e, ble app, [WriteGattChar a u payload True])"
    by auto
  from send_and_report_connected [OF inv assms(2), of env payload] assms(3) c w
  have r: "send_and_report env payload app =
     (Inl e, app\<lparr>status_var := ''Send failed: '' @ str_exn e\<rparr>, [WriteGattChar a u payload True])"
    by auto
  with assms(2) have sc: "send_command bleak env payload app =
     (Inl e, app\<lparr>status_var := ''Send failed: '' @ str_exn e\<rparr>, [WriteGattChar a u payload True])"
    by (simp add: send_command_def)
  let ?app' = "app\<lparr>status_var := ''Send failed: '' @ str_exn e\<rparr>"
  have inv': "link_complete (ble ?app')" and con': "connected (ble ?app')"
    using inv assms(2) by simp_all
  from send_and_report_connected [OF inv' con', of env' payload'] assms(3) c
  have "snd (snd (send_and_report env' payload' ?app')) = [WriteGattChar a u payload' True]"
    by (auto split: option.splits)
  with con' have n: "snd (snd (send_command bleak env' payload' ?app')) = [WriteGattChar a u payload' True]"
    by (simp add: send_command_def)
  from c s sc n show ?thesis
    by (simp add: REQUIRE_RESPONSE_ON_WRITE_def)
qed

theorem failed_write_keeps_connection_witness:
  "send_command True rejecting_stack ''forward'' linked_app
     = (Inl (BackendError ''write failed''),
        linked_app\<lparr>status_var := ''Send failed: write failed''\<rparr>,
        [WriteGattChar ''AA:BB'' COMMAND_CHAR_UUID ''forward'' True])
   \<and> snd (snd (send_command True quiet_stack ''back''
                  (fst (snd (send_command True rejecting_stack ''forward'' linked_app)))))
       = [WriteGattChar ''AA:BB'' COMMAND_CHAR_UUID ''back'' True]"
proof -
  have u: "char_uuid (ble linked_app) = Some COMMAND_CHAR_UUID"
    by (simp add: linked_app_def linked_def)
  have w: "client_write_gatt_char rejecting_stack COMMAND_CHAR_UUID ''forward''
             REQUIRE_RESPONSE_ON_WRITE = Some (BackendError ''write failed'')"
    by (simp add: rejecting_stack_def quiet_stack_def)
  from failed_write_keeps_connection [OF reachable_linked_app connected_linked_app u w,
      of quiet_stack "''back''"]
  obtain a where c: "client (ble linked_app) = Some (BleakClient a)"
    and s: "send_command True rejecting_stack ''forward'' linked_app
           = (Inl (BackendError ''write failed''),
              linked_app\<lparr>status_var := ''Send failed: '' @ str_exn (BackendError ''write failed'')\<rparr>,
              [WriteGattChar a COMMAND_CHAR_UUID ''forward'' True])"
    and n: "snd (snd (send_command True quiet_stack ''back''
                  (fst (snd (send_command True rejecting_stack ''forward'' linked_app)))))
           = [WriteGattChar a COMMAND_CHAR_UUID ''back'' True]"
    by blast
  from c have "a = ''AA:BB''" by (simp add: linked_app_def linked_def)
  with s n show ?thesis by simp
qed

end
